theory Spec2Isabelle
  imports Complex_Main "HOL-Library.Word"
begin

section \<open>Values of the Python program\<close>

text \<open>
  The exceptions that the modelled parts of \<^verbatim>\<open>logistic_sgd.py\<close> can raise.
  Python integers are unbounded and are modelled as \<open>int\<close>; \<open>div\<close> and \<open>mod\<close> on
  \<open>int\<close> round towards minus infinity, as Python's \<^verbatim>\<open>/\<close> (Python 2, on integers)
  and \<^verbatim>\<open>%\<close> do. A Theano \<^verbatim>\<open>lscalar\<close> is a 64-bit signed integer, a \<open>64 word\<close>
  read with \<open>sint\<close>.
\<close>

datatype py_error =
  ZeroDivisionError | TypeError | NotImplementedError | NameError | ValueError

type_synonym int64 = "64 word"

text \<open>
  The floating-point arithmetic of NumPy and Theano that the program uses, over a type
  \<open>'f\<close> of floating-point values. The operations are parameters of the model: nothing is
  assumed of how they round.
  \<^item> \<open>float_lt\<close> is \<^verbatim>\<open><\<close> and \<open>float_mul\<close> is \<^verbatim>\<open>*\<close> on two floats;
  \<^item> \<open>numpy_mean\<close> is \<^verbatim>\<open>numpy.mean\<close> of a list of floats;
  \<^item> \<open>mean_neq\<close> is the compiled \<^verbatim>\<open>T.mean(T.neq(y_pred, y))\<close> on two vectors of equal
    length: the mean of the vector that holds 1 where prediction and label differ and 0
    elsewhere;
  \<^item> \<open>numpy_inf\<close> is \<^verbatim>\<open>numpy.inf\<close>, \<open>improvement_threshold\<close> the float that the
    literal \<^verbatim>\<open>0.995\<close> of line 316 denotes, and \<open>float_zero\<close> the literal \<^verbatim>\<open>0.\<close> of
    line 326.
\<close>

record 'f float_ops =
  float_lt :: "'f \<Rightarrow> 'f \<Rightarrow> bool"
  float_mul :: "'f \<Rightarrow> 'f \<Rightarrow> 'f"
  numpy_mean :: "'f list \<Rightarrow> 'f"
  mean_neq :: "int list \<Rightarrow> int list \<Rightarrow> 'f"
  numpy_inf :: 'f
  improvement_threshold :: 'f
  float_zero :: 'f

text \<open>\<^verbatim>\<open>xrange(n)\<close>: the integers \<open>0, \<dots>, n - 1\<close>, none when \<open>n \<le> 0\<close>.\<close>

definition xrange :: "int \<Rightarrow> int list" where
  "xrange n = [0..n - 1]"

section \<open>Minibatches\<close>

text \<open>
  A slice \<^verbatim>\<open>xs[lo:hi]\<close>: a negative bound counts from the end, and every bound
  is clipped to the sequence. Slicing raises nothing.
\<close>

definition slice_bound :: "nat \<Rightarrow> int \<Rightarrow> nat" where
  "slice_bound n k = (if k < 0 then nat (max 0 (int n + k)) else min n (nat k))"

definition py_slice :: "'a list \<Rightarrow> int \<Rightarrow> int \<Rightarrow> 'a list" where
  "py_slice xs lo hi =
     (let a = slice_bound (length xs) lo; b = slice_bound (length xs) hi
      in take (b - a) (drop a xs))"

text \<open>
  The number of minibatches of a split, \<^verbatim>\<open>shape[0] / batch_size\<close> (lines 252 to 254):
  integer division, which raises on a zero batch size.
\<close>

definition n_batches :: "'a list \<Rightarrow> int \<Rightarrow> py_error + int" where
  "n_batches split batch_size =
     (if batch_size = 0 then Inl ZeroDivisionError
      else Inr (int (length split) div batch_size))"

text \<open>
  The rows that the compiled functions are given for a minibatch index
  (\<^verbatim>\<open>givens\<close>, lines 280, 286 and 305):
  \<^verbatim>\<open>split[index * batch_size: (index + 1) * batch_size]\<close>. The index is the
  \<^verbatim>\<open>T.lscalar\<close> of line 262, so both bounds are computed in 64-bit integers and wrap
  around; the batch size enters the products as a constant of that type. The result is
  typed as fallible so that a failure could be told from a value; the source has no check
  here and the slice never fails.
\<close>

definition batch :: "'a list \<Rightarrow> int \<Rightarrow> int64 \<Rightarrow> py_error + 'a list" where
  "batch split batch_size index =
     Inr (py_slice split (sint (index * word_of_int batch_size))
            (sint ((index + 1) * word_of_int batch_size)))"

section \<open>The classifier's error rate\<close>

text \<open>
  What \<^verbatim>\<open>LogisticRegression.errors\<close> reads of a Theano vector or matrix: its number
  of dimensions, the name of its element type, and its entries.
\<close>

record tensor =
  ndim :: nat
  dtype :: string
  elems :: "int list"

definition startswith :: "string \<Rightarrow> string \<Rightarrow> bool" where
  "startswith s p = (take (length p) s = p)"

text \<open>
  \<^verbatim>\<open>errors(self, y)\<close>, lines 128 to 148, with the value of the expression it returns.
  The \<^verbatim>\<open>raise TypeError(...)\<close> of line 140 builds its arguments first, and they read
  \<^verbatim>\<open>target.type\<close> (line 141); the name \<^verbatim>\<open>target\<close> is bound nowhere in the module,
  so evaluating it raises \<^verbatim>\<open>NameError\<close> and the \<^verbatim>\<open>TypeError\<close> is never
  constructed. When the expression of line 146 is evaluated on vectors of different
  lengths, the elementwise \<^verbatim>\<open>T.neq\<close> raises \<^verbatim>\<open>ValueError\<close>.
\<close>

definition errors :: "'f float_ops \<Rightarrow> tensor \<Rightarrow> tensor \<Rightarrow> py_error + 'f" where
  "errors ops y_pred y =
     (if ndim y \<noteq> ndim y_pred then Inl NameError
      else if startswith (dtype y) ''int''
        then (if length (elems y_pred) \<noteq> length (elems y) then Inl ValueError
              else Inr (mean_neq ops (elems y_pred) (elems y)))
      else Inl NotImplementedError)"

section \<open>The training run\<close>

text \<open>
  The arguments of \<^verbatim>\<open>sgd_optimization_mnist\<close> and what it builds from Theano before the
  loop. A row of a split is a feature vector with its label. The gradient update of
  \<^verbatim>\<open>train_model\<close> on a minibatch (lines 290 to 296) and the class that
  \<^verbatim>\<open>y_pred\<close> (line 94) gives a row are computed by Theano from the parameters \<open>W\<close>
  and \<open>b\<close>; they are functions of the parameters and of the rows, kept abstract here.
  \<open>zero_params\<close> stands for the all-zero \<open>W\<close> and \<open>b\<close> of lines 81 to 87, and
  \<open>floats\<close> is the floating-point arithmetic.
\<close>

record ('p, 'x, 'f) inputs =
  floats :: "'f float_ops"
  sgd_update :: "('x \<times> int) list \<Rightarrow> 'p \<Rightarrow> 'p"
  predict :: "'p \<Rightarrow> 'x \<Rightarrow> int"
  zero_params :: 'p
  train_set :: "('x \<times> int) list"
  valid_set :: "('x \<times> int) list"
  test_set :: "('x \<times> int) list"
  batch_size :: int
  n_epochs :: int

text \<open>The inputs together with the batch counts of lines 252 to 254.\<close>

record ('p, 'x, 'f) env = "('p, 'x, 'f) inputs" +
  n_train_batches :: int
  n_valid_batches :: int
  n_test_batches :: int

text \<open>The local variables that the loop of lines 329 to 370 updates.\<close>

record ('p, 'f) train_state =
  params :: 'p
  patience :: int
  best_validation_loss :: 'f
  test_score :: 'f
  done_looping :: bool

definition patience0 :: int where
  "patience0 = 5000"

definition patience_increase :: int where
  "patience_increase = 2"

text \<open>Line 318; \<^verbatim>\<open>patience / 2\<close> is integer division.\<close>

definition validation_frequency :: "int \<Rightarrow> int" where
  "validation_frequency n_train = min n_train (patience0 div 2)"

text \<open>A list comprehension over calls that may raise: the first failure ends it.\<close>

fun map_result :: "('a \<Rightarrow> py_error + 'b) \<Rightarrow> 'a list \<Rightarrow> py_error + 'b list" where
  "map_result f [] = Inr []"
| "map_result f (a # as) =
     (case f a of
        Inl e \<Rightarrow> Inl e
      | Inr b \<Rightarrow> (case map_result f as of Inl e \<Rightarrow> Inl e | Inr bs \<Rightarrow> Inr (b # bs)))"

text \<open>
  The three compiled functions, lines 277 to 306, each on the minibatch of its split. The
  index is passed as a 64-bit integer; the indices of the loops are those of
  \<^verbatim>\<open>xrange\<close> over a batch count and lie in its range. The error rate is that of
  \<^verbatim>\<open>errors\<close> on the predictions and the labels of the same rows.
\<close>

definition train_model :: "('p, 'x, 'f) env \<Rightarrow> int \<Rightarrow> 'p \<Rightarrow> py_error + 'p" where
  "train_model c index p =
     (case batch (train_set c) (batch_size c) (word_of_int index) of
        Inl e \<Rightarrow> Inl e
      | Inr rows \<Rightarrow> Inr (sgd_update c rows p))"

definition validate_model :: "('p, 'x, 'f) env \<Rightarrow> int \<Rightarrow> 'p \<Rightarrow> py_error + 'f" where
  "validate_model c index p =
     (case batch (valid_set c) (batch_size c) (word_of_int index) of
        Inl e \<Rightarrow> Inl e
      | Inr rows \<Rightarrow>
          Inr (mean_neq (floats c) (map (\<lambda>(x, y). predict c p x) rows) (map snd rows)))"

definition test_model :: "('p, 'x, 'f) env \<Rightarrow> int \<Rightarrow> 'p \<Rightarrow> py_error + 'f" where
  "test_model c index p =
     (case batch (test_set c) (batch_size c) (word_of_int index) of
        Inl e \<Rightarrow> Inl e
      | Inr rows \<Rightarrow>
          Inr (mean_neq (floats c) (map (\<lambda>(x, y). predict c p x) rows) (map snd rows)))"

text \<open>
  Lines 340 to 366, the body of \<^verbatim>\<open>if (iter + 1) % validation_frequency == 0\<close>,
  with \<open>iter\<close> the zero-based count of line 337.
\<close>

definition validation_check ::
  "('p, 'x, 'f) env \<Rightarrow> int \<Rightarrow> ('p, 'f) train_state \<Rightarrow> py_error + ('p, 'f) train_state" where
  "validation_check c iter s =
     (case map_result (\<lambda>i. validate_model c i (params s)) (xrange (n_valid_batches c)) of
        Inl e \<Rightarrow> Inl e
      | Inr validation_losses \<Rightarrow>
          let this_validation_loss = numpy_mean (floats c) validation_losses in
          if float_lt (floats c) this_validation_loss (best_validation_loss s) then
            let s1 = (if float_lt (floats c) this_validation_loss
                           (float_mul (floats c) (best_validation_loss s)
                              (improvement_threshold (floats c)))
                      then s\<lparr>patience := max (patience s) (iter * patience_increase)\<rparr>
                      else s)
            in (case map_result (\<lambda>i. test_model c i (params s)) (xrange (n_test_batches c)) of
                  Inl e \<Rightarrow> Inl e
                | Inr test_losses \<Rightarrow>
                    Inr (s1\<lparr>best_validation_loss := this_validation_loss,
                            test_score := numpy_mean (floats c) test_losses\<rparr>))
          else Inr s)"

text \<open>
  Lines 335 to 370, one pass through the body of the \<^verbatim>\<open>for\<close> loop. The test
  \<^verbatim>\<open>patience <= iter\<close> of line 368 stands at the level of the loop body, after the
  validation block and outside it. A zero \<open>validation_frequency\<close> makes the
  \<^verbatim>\<open>%\<close> of line 339 raise.
\<close>

definition minibatch_step ::
  "('p, 'x, 'f) env \<Rightarrow> int \<Rightarrow> int \<Rightarrow> ('p, 'f) train_state
     \<Rightarrow> py_error + ('p, 'f) train_state" where
  "minibatch_step c epoch minibatch_index s =
     (case train_model c minibatch_index (params s) of
        Inl e \<Rightarrow> Inl e
      | Inr p \<Rightarrow>
          let s1 = s\<lparr>params := p\<rparr>;
              iter = (epoch - 1) * n_train_batches c + minibatch_index
          in if validation_frequency (n_train_batches c) = 0 then Inl ZeroDivisionError
             else (case (if (iter + 1) mod validation_frequency (n_train_batches c) = 0
                         then validation_check c iter s1 else Inr s1) of
                     Inl e \<Rightarrow> Inl e
                   | Inr s2 \<Rightarrow>
                       Inr (if patience s2 \<le> iter then s2\<lparr>done_looping := True\<rparr> else s2)))"

text \<open>
  The \<^verbatim>\<open>for\<close> loop of line 333 over the minibatch indices still to visit;
  \<^verbatim>\<open>break\<close> (line 370) leaves it as soon as \<open>done_looping\<close> is set.
\<close>

fun minibatch_loop ::
  "('p, 'x, 'f) env \<Rightarrow> int \<Rightarrow> int list \<Rightarrow> ('p, 'f) train_state
     \<Rightarrow> py_error + ('p, 'f) train_state" where
  "minibatch_loop c epoch [] s = Inr s"
| "minibatch_loop c epoch (minibatch_index # rest) s =
     (case minibatch_step c epoch minibatch_index s of
        Inl e \<Rightarrow> Inl e
      | Inr s' \<Rightarrow> if done_looping s' then Inr s' else minibatch_loop c epoch rest s')"

text \<open>
  The \<^verbatim>\<open>while\<close> loop of line 331. It returns the number of epochs run, which the
  program prints, with the final values of the variables.
\<close>

function epoch_loop ::
  "('p, 'x, 'f) env \<Rightarrow> int \<Rightarrow> ('p, 'f) train_state
     \<Rightarrow> py_error + (int \<times> ('p, 'f) train_state)" where
  "epoch_loop c epoch s =
     (if epoch < n_epochs c \<and> \<not> done_looping s
      then (case minibatch_loop c (epoch + 1) (xrange (n_train_batches c)) s of
              Inl e \<Rightarrow> Inl e
            | Inr s' \<Rightarrow> epoch_loop c (epoch + 1) s')
      else Inr (epoch, s))"
  by pat_completeness auto
termination
  by (relation "measure (\<lambda>(c, epoch, s). nat (n_epochs c - epoch))") auto

declare epoch_loop.simps [simp del]

text \<open>The environment of the loop: the inputs with the batch counts.\<close>

definition env_of :: "('p, 'x, 'f) inputs \<Rightarrow> int \<Rightarrow> int \<Rightarrow> int \<Rightarrow> ('p, 'x, 'f) env" where
  "env_of inp n_train n_valid n_test =
     inputs.extend inp
       \<lparr>n_train_batches = n_train, n_valid_batches = n_valid, n_test_batches = n_test\<rparr>"

text \<open>Lines 313 and 324 to 330.\<close>

definition initial_state :: "('p, 'x, 'f) inputs \<Rightarrow> ('p, 'f) train_state" where
  "initial_state inp =
     \<lparr>params = zero_params inp, patience = patience0,
      best_validation_loss = numpy_inf (floats inp),
      test_score = float_zero (floats inp), done_looping = False\<rparr>"

text \<open>\<^verbatim>\<open>sgd_optimization_mnist\<close> from the loaded splits on (lines 252 to 370).\<close>

definition sgd_optimization_mnist ::
  "('p, 'x, 'f) inputs \<Rightarrow> py_error + (int \<times> ('p, 'f) train_state)" where
  "sgd_optimization_mnist inp =
     (case n_batches (train_set inp) (batch_size inp) of
        Inl e \<Rightarrow> Inl e
      | Inr n_train \<Rightarrow>
     (case n_batches (valid_set inp) (batch_size inp) of
        Inl e \<Rightarrow> Inl e
      | Inr n_valid \<Rightarrow>
     (case n_batches (test_set inp) (batch_size inp) of
        Inl e \<Rightarrow> Inl e
      | Inr n_test \<Rightarrow>
          epoch_loop (env_of inp n_train n_valid n_test) 0 (initial_state inp))))"

section \<open>Notions for stating the properties\<close>

text \<open>
  The values that \<^verbatim>\<open>this_validation_loss\<close> (line 343) and the new
  \<^verbatim>\<open>test_score\<close> (line 361) take under the parameters \<open>p\<close>. No call on a minibatch
  raises (the lemmas \<open>validate_model_Inr\<close> and \<open>test_model_Inr\<close> below), so \<open>projr\<close>
  reads the value of each call.
\<close>

definition this_validation_loss :: "('p, 'x, 'f) env \<Rightarrow> 'p \<Rightarrow> 'f" where
  "this_validation_loss c p =
     numpy_mean (floats c)
       (map (\<lambda>i. projr (validate_model c i p)) (xrange (n_valid_batches c)))"

definition this_test_loss :: "('p, 'x, 'f) env \<Rightarrow> 'p \<Rightarrow> 'f" where
  "this_test_loss c p =
     numpy_mean (floats c) (map (\<lambda>i. projr (test_model c i p)) (xrange (n_test_batches c)))"

text \<open>Line 337, and the condition of line 339.\<close>

definition iter_of :: "('p, 'x, 'f) env \<Rightarrow> int \<Rightarrow> int \<Rightarrow> int" where
  "iter_of c epoch minibatch_index = (epoch - 1) * n_train_batches c + minibatch_index"

definition validation_event :: "('p, 'x, 'f) env \<Rightarrow> int \<Rightarrow> int \<Rightarrow> bool" where
  "validation_event c epoch minibatch_index =
     ((iter_of c epoch minibatch_index + 1) mod validation_frequency (n_train_batches c) = 0)"

section \<open>Inputs for the examples\<close>

text \<open>
  Floating-point values for the examples: a finite number, the two infinities
  (\<^verbatim>\<open>numpy.inf\<close> and its negation), and the not-a-number that \<^verbatim>\<open>numpy.mean\<close>
  returns on an empty list. Comparison and arithmetic treat the infinities and
  not-a-number as floating point does; on finite numbers they are exact, without rounding
  or overflow. They are used below only where 64-bit floating point is exact too: every
  loss of the examples is the mean of a single value 0 or 1, or of no value, and every
  product is that of 0, 1 or \<^verbatim>\<open>numpy.inf\<close> with the threshold. The threshold is the 64-bit
  float nearest to 0.995, which is \<open>8962163258467287 / 2 ^ 53\<close>.
\<close>

datatype pyfloat = FVal real | FInf | FNegInf | FNaN

fun exact_lt :: "pyfloat \<Rightarrow> pyfloat \<Rightarrow> bool" where
  "exact_lt FNaN b = False"
| "exact_lt a FNaN = False"
| "exact_lt (FVal a) (FVal b) = (a < b)"
| "exact_lt (FVal a) FInf = True"
| "exact_lt (FVal a) FNegInf = False"
| "exact_lt FInf b = False"
| "exact_lt FNegInf FNegInf = False"
| "exact_lt FNegInf b = True"

fun exact_mul :: "pyfloat \<Rightarrow> pyfloat \<Rightarrow> pyfloat" where
  "exact_mul FNaN b = FNaN"
| "exact_mul a FNaN = FNaN"
| "exact_mul (FVal a) (FVal b) = FVal (a * b)"
| "exact_mul (FVal a) FInf = (if 0 < a then FInf else if a < 0 then FNegInf else FNaN)"
| "exact_mul (FVal a) FNegInf = (if 0 < a then FNegInf else if a < 0 then FInf else FNaN)"
| "exact_mul FInf (FVal b) = (if 0 < b then FInf else if b < 0 then FNegInf else FNaN)"
| "exact_mul FNegInf (FVal b) = (if 0 < b then FNegInf else if b < 0 then FInf else FNaN)"
| "exact_mul FInf FInf = FInf"
| "exact_mul FInf FNegInf = FNegInf"
| "exact_mul FNegInf FInf = FNegInf"
| "exact_mul FNegInf FNegInf = FInf"

fun exact_add :: "pyfloat \<Rightarrow> pyfloat \<Rightarrow> pyfloat" where
  "exact_add FNaN b = FNaN"
| "exact_add a FNaN = FNaN"
| "exact_add (FVal a) (FVal b) = FVal (a + b)"
| "exact_add (FVal a) FInf = FInf"
| "exact_add (FVal a) FNegInf = FNegInf"
| "exact_add FInf FNegInf = FNaN"
| "exact_add FInf b = FInf"
| "exact_add FNegInf FInf = FNaN"
| "exact_add FNegInf b = FNegInf"

text \<open>Division by the number of entries, which is positive where this is used.\<close>

fun exact_div_count :: "pyfloat \<Rightarrow> nat \<Rightarrow> pyfloat" where
  "exact_div_count (FVal a) n = FVal (a / real n)"
| "exact_div_count FInf n = FInf"
| "exact_div_count FNegInf n = FNegInf"
| "exact_div_count FNaN n = FNaN"

text \<open>
  \<^verbatim>\<open>numpy.mean\<close>: the sum over the number of entries, not-a-number for no entry. The
  error rate is the mean of the vector of ones and zeros that \<^verbatim>\<open>T.neq\<close> gives.
\<close>

definition exact_mean :: "pyfloat list \<Rightarrow> pyfloat" where
  "exact_mean vs =
     (if vs = [] then FNaN
      else exact_div_count (foldl exact_add (FVal 0) vs) (length vs))"

definition exact_mean_neq :: "int list \<Rightarrow> int list \<Rightarrow> pyfloat" where
  "exact_mean_neq y_pred y =
     exact_mean (map (\<lambda>(p, t). FVal (if p \<noteq> t then 1 else 0)) (zip y_pred y))"

definition exact_floats :: "pyfloat float_ops" where
  "exact_floats =
     \<lparr>float_lt = exact_lt, float_mul = exact_mul, numpy_mean = exact_mean,
      mean_neq = exact_mean_neq, numpy_inf = FInf,
      improvement_threshold = FVal (8962163258467287 / 9007199254740992),
      float_zero = FVal 0\<rparr>"

text \<open>
  The parameter of the toy classifier counts the updates made; it predicts class 0 for
  every row until \<open>k\<close> updates have been made and class 1 from then on. The training rows
  carry the label 0, the validation and test rows the label 1, so a validation minibatch
  has the error rate 1 before the \<open>k\<close>-th update and 0 after it.
\<close>

definition toy_inputs ::
  "int \<Rightarrow> nat \<Rightarrow> nat \<Rightarrow> nat \<Rightarrow> int \<Rightarrow> int \<Rightarrow> (int, unit, pyfloat) inputs" where
  "toy_inputs k n_train_rows n_valid_rows n_test_rows bsz epochs =
     \<lparr>floats = exact_floats,
      sgd_update = (\<lambda>rows p. p + 1),
      predict = (\<lambda>p x. if k \<le> p then 1 else 0),
      zero_params = 0,
      train_set = replicate n_train_rows ((), 0),
      valid_set = replicate n_valid_rows ((), 1),
      test_set = replicate n_test_rows ((), 1),
      batch_size = bsz, n_epochs = epochs\<rparr>"

section \<open>Minibatch properties\<close>

text \<open>The definitions to unfold when a pass is evaluated on the toy inputs.\<close>

lemmas toy_eval =
  minibatch_step_def train_model_def validate_model_def test_model_def validation_check_def
  batch_def py_slice_def slice_bound_def env_of_def toy_inputs_def inputs.extend_def
  validation_frequency_def patience0_def patience_increase_def exact_floats_def
  xrange_def exact_mean_neq_def exact_mean_def Let_def

lemma slice_bound_nonneg: "0 \<le> k \<Longrightarrow> slice_bound n k = min n (nat k)"
  by (simp add: slice_bound_def)

lemma py_slice_nonneg:
  assumes "0 \<le> lo" and "lo \<le> hi"
  shows "py_slice xs lo hi = take (nat hi - nat lo) (drop (nat lo) xs)"
proof -
  have hi0: "0 \<le> hi" using assms by simp
  have le: "nat lo \<le> nat hi" using assms by simp
  show ?thesis
  proof (cases "nat lo \<le> length xs")
    case True
    then have a: "min (length xs) (nat lo) = nat lo" by simp
    have "take (min (length xs) (nat hi) - nat lo) (drop (nat lo) xs)
            = take (nat hi - nat lo) (drop (nat lo) xs)"
      using True by (simp add: min_def)
    then show ?thesis
      using assms hi0 by (simp add: py_slice_def slice_bound_nonneg a Let_def)
  next
    case False
    then show ?thesis
      using assms hi0 by (simp add: py_slice_def slice_bound_nonneg Let_def)
  qed
qed

text \<open>An integer in the 64-bit range is read back unchanged.\<close>

lemma sint_int64_fits:
  assumes "- (2 ^ 63) \<le> k" and "k < 2 ^ 63"
  shows "sint (word_of_int k :: int64) = k"
proof -
  have "sint (word_of_int k :: int64) = signed_take_bit 63 k"
    by (simp add: sint_sbintrunc')
  also have "\<dots> = k"
    using assms by (simp add: signed_take_bit_int_eq_self)
  finally show ?thesis .
qed

text \<open>
  Without wrap-around the slice is the one that unbounded integers give: \<open>batch_size\<close>
  rows from row \<open>index * batch_size\<close> on, as many as the split has.
\<close>

lemma batch_rows:
  assumes "0 < bsz" and "0 \<le> i" and "(i + 1) * bsz < 2 ^ 63"
  shows "batch rows bsz (word_of_int i)
           = Inr (take (nat bsz) (drop (nat (i * bsz)) rows))"
proof -
  have lo: "0 \<le> i * bsz" using assms by simp
  have le: "i * bsz \<le> (i + 1) * bsz"
    using assms by (simp add: algebra_simps)
  have w1: "(word_of_int i :: int64) * word_of_int bsz = word_of_int (i * bsz)" by simp
  have w2: "(word_of_int i + 1 :: int64) * word_of_int bsz = word_of_int ((i + 1) * bsz)"
    by simp
  have s1: "sint (word_of_int (i * bsz) :: int64) = i * bsz"
    using lo le assms(3) by (intro sint_int64_fits) linarith+
  have s2: "sint (word_of_int ((i + 1) * bsz) :: int64) = (i + 1) * bsz"
    using lo le assms(3) by (intro sint_int64_fits) linarith+
  have "nat ((i + 1) * bsz) - nat (i * bsz) = nat bsz"
    using assms lo by (simp add: algebra_simps nat_add_distrib)
  then show ?thesis
    unfolding batch_def w1 w2 s1 s2 by (simp add: py_slice_nonneg [OF lo le])
qed

text \<open>The slice raises for no index, in range or not.\<close>

lemma batch_never_raises: "\<exists>b. batch rows bsz index = Inr b"
  by (simp add: batch_def)

text \<open>
  Past the 64-bit range the bounds of the slice wrap around: with a batch size of 4 the
  index \<open>2 ^ 62\<close> gives the bounds 0 and 4, so the first four rows.
\<close>

lemma batch_index_wraps:
  "batch [0, 1, 2, 3, 4, 5 :: int] 4 (2 ^ 62) = Inr [0, 1, 2, 3]"
  by (simp add: batch_def py_slice_def slice_bound_def)

lemma full_batch_bound:
  assumes "0 < bsz" and "0 \<le> i" and "i < int (length rows) div bsz"
  shows "nat (i * bsz) + nat bsz \<le> length rows"
proof -
  define n where "n = int (length rows)"
  have dm: "bsz * (n div bsz) + n mod bsz = n" by (rule mult_div_mod_eq)
  have r0: "0 \<le> n mod bsz" using assms(1) by simp
  have "i + 1 \<le> n div bsz" using assms(3) by (simp add: n_def)
  then have "bsz * (i + 1) \<le> bsz * (n div bsz)"
    using assms(1) by (simp add: mult_left_mono)
  with dm r0 have "bsz * (i + 1) \<le> n" by linarith
  then have "i * bsz + bsz \<le> n" by (simp add: algebra_simps)
  moreover have "0 \<le> i * bsz" using assms by simp
  ultimately show ?thesis using assms(1) unfolding n_def by linarith
qed

lemma full_batch_fits:
  assumes "0 < bsz" and "0 \<le> i" and "i < int (length rows) div bsz"
  shows "(i + 1) * bsz \<le> int (length rows)"
proof -
  have "nat (i * bsz) + nat bsz \<le> length rows"
    using assms by (rule full_batch_bound)
  moreover have "0 \<le> i * bsz" using assms by simp
  ultimately have "i * bsz + bsz \<le> int (length rows)" using assms(1) by linarith
  then show ?thesis by (simp add: algebra_simps)
qed

lemma short_batch_bound:
  assumes "0 < bsz" and "0 \<le> i" and "int (length rows) div bsz \<le> i"
  shows "length rows < nat (i * bsz) + nat bsz"
proof -
  define n where "n = int (length rows)"
  have dm: "bsz * (n div bsz) + n mod bsz = n" by (rule mult_div_mod_eq)
  have r1: "n mod bsz < bsz" using assms(1) by simp
  have "n div bsz \<le> i" using assms(3) by (simp add: n_def)
  then have "bsz * (n div bsz) \<le> bsz * i"
    using assms(1) by (simp add: mult_left_mono)
  with dm r1 have "n < bsz * i + bsz" by linarith
  then have "n < i * bsz + bsz" by (simp add: algebra_simps)
  moreover have "0 \<le> i * bsz" using assms by simp
  ultimately show ?thesis using assms(1) unfolding n_def by linarith
qed

text \<open>
  The indices that the loops pass to the compiled functions are those of
  \<^verbatim>\<open>xrange\<close> over a batch count; for a split of fewer than \<open>2 ^ 63\<close> rows, as every
  array has, they are read back unchanged from their 64 bits.
\<close>

lemma loop_index_fits:
  assumes "int (length rows) < 2 ^ 63" and "n_batches rows bsz = Inr n"
    and "i \<in> set (xrange n)"
  shows "sint (word_of_int i :: int64) = i"
proof -
  have i: "0 \<le> i" "i < n" using assms(3) by (auto simp: xrange_def)
  have bsz: "bsz \<noteq> 0" and n: "n = int (length rows) div bsz"
    using assms(2) by (auto simp: n_batches_def split: if_splits)
  have pos: "0 < bsz"
  proof (rule ccontr)
    assume "\<not> 0 < bsz"
    with bsz have "bsz < 0" by simp
    then have "int (length rows) div bsz \<le> 0"
      by (simp add: div_nonneg_neg_le0)
    with i n show False by simp
  qed
  have dm: "bsz * n + int (length rows) mod bsz = int (length rows)"
    unfolding n by (rule mult_div_mod_eq)
  have r0: "0 \<le> int (length rows) mod bsz" using pos by simp
  have "1 * n \<le> bsz * n" using pos i by (intro mult_right_mono) linarith+
  with dm r0 have "n \<le> int (length rows)" by linarith
  with i assms(1) show ?thesis by (intro sint_int64_fits) linarith+
qed

text \<open>
  Claim C8. For a positive batch size the number of minibatches of a split is the floor
  of the number of rows over the batch size, and every minibatch whose index lies in
  \<open>0, \<dots>, num_batches - 1\<close> holds exactly \<open>batch_size\<close> rows, those from row
  \<open>index * batch_size\<close> on: the rows past the last full minibatch are never visited.
  The split is an array, of fewer than \<open>2 ^ 63\<close> rows.
\<close>

theorem num_batches_floor_and_full_batches:
  assumes "0 < bsz" and "int (length rows) < 2 ^ 63"
  shows "n_batches rows bsz = Inr \<lfloor>real (length rows) / real_of_int bsz\<rfloor>
       \<and> (\<forall>i. 0 \<le> i \<and> i < int (length rows) div bsz \<longrightarrow>
             (\<exists>b. batch rows bsz (word_of_int i) = Inr b \<and> length b = nat bsz
                  \<and> b = take (nat bsz) (drop (nat (i * bsz)) rows)))"
proof (intro conjI allI impI)
  have "\<lfloor>real_of_int (int (length rows)) / real_of_int bsz\<rfloor> = int (length rows) div bsz"
    by (rule floor_divide_of_int_eq)
  then show "n_batches rows bsz = Inr \<lfloor>real (length rows) / real_of_int bsz\<rfloor>"
    using assms by (simp add: n_batches_def)
next
  fix i assume i: "0 \<le> i \<and> i < int (length rows) div bsz"
  then have "nat (i * bsz) + nat bsz \<le> length rows"
    using assms by (simp add: full_batch_bound)
  then have len: "length (take (nat bsz) (drop (nat (i * bsz)) rows)) = nat bsz" by simp
  have "(i + 1) * bsz \<le> int (length rows)"
    using assms(1) i by (simp add: full_batch_fits)
  with assms(2) have "(i + 1) * bsz < 2 ^ 63" by linarith
  with assms(1) i have "batch rows bsz (word_of_int i)
      = Inr (take (nat bsz) (drop (nat (i * bsz)) rows))"
    by (simp add: batch_rows)
  with len show "\<exists>b. batch rows bsz (word_of_int i) = Inr b \<and> length b = nat bsz
                 \<and> b = take (nat bsz) (drop (nat (i * bsz)) rows)"
    by simp
qed

theorem num_batches_floor_and_full_batches_witness:
  "(0::int) < 2 \<and> int (length [0, 1, 2, 3, 4 :: int]) < 2 ^ 63
     \<and> n_batches [0, 1, 2, 3, 4 :: int] 2 = Inr 2
     \<and> (\<exists>b. batch [0, 1, 2, 3, 4 :: int] 2 1 = Inr b \<and> length b = 2)"
proof -
  have a: "(0::int) < 2" and b: "int (length [0, 1, 2, 3, 4 :: int]) < 2 ^ 63" by simp_all
  note inst = num_batches_floor_and_full_batches [OF a b]
  have "n_batches [0, 1, 2, 3, 4 :: int] 2 = Inr 2"
    using inst [THEN conjunct1] by simp
  moreover have "\<exists>b. batch [0, 1, 2, 3, 4 :: int] 2 1 = Inr b \<and> length b = 2"
    using inst [THEN conjunct2, THEN spec, of 1] by simp
  ultimately show ?thesis using a b by blast
qed

text \<open>
  Claim C7, as the code has it. For a positive batch size and an index from 0 on whose
  upper bound \<open>(index + 1) * batch_size\<close> is below \<open>2 ^ 63\<close>, so that the 64-bit products
  do not wrap, the minibatch is the slice of the split from row \<open>index * batch_size\<close>,
  clipped to the split: it holds exactly the rows
  \<open>index * batch_size, \<dots>, (index + 1) * batch_size - 1\<close> when \<open>index < num_batches\<close>, and
  when \<open>index \<ge> num_batches\<close> nothing is raised and the result is the rows that are left,
  fewer than \<open>batch_size\<close> of them, possibly none. Nothing is raised for any 64-bit index
  at all.
\<close>

theorem batch_clips_to_split:
  assumes "0 < bsz" and "0 \<le> i" and "(i + 1) * bsz < 2 ^ 63"
  shows "(\<exists>b. batch rows bsz (word_of_int i) = Inr b
           \<and> b = take (nat bsz) (drop (nat (i * bsz)) rows)
           \<and> (i < int (length rows) div bsz \<longrightarrow>
                length b = nat bsz \<and> (\<forall>j < nat bsz. b ! j = rows ! (nat (i * bsz) + j)))
           \<and> (int (length rows) div bsz \<le> i \<longrightarrow> length b < nat bsz))
       \<and> (\<forall>index. \<exists>b. batch rows bsz index = Inr b)"
proof -
  let ?b = "take (nat bsz) (drop (nat (i * bsz)) rows)"
  have full: "length ?b = nat bsz \<and> (\<forall>j < nat bsz. ?b ! j = rows ! (nat (i * bsz) + j))"
    if "i < int (length rows) div bsz"
  proof -
    have le: "nat (i * bsz) + nat bsz \<le> length rows"
      using assms that by (simp add: full_batch_bound)
    then show ?thesis by simp
  qed
  have short: "length ?b < nat bsz" if "int (length rows) div bsz \<le> i"
  proof -
    have "length rows < nat (i * bsz) + nat bsz"
      using assms that by (simp add: short_batch_bound)
    then show ?thesis using assms(1) by simp
  qed
  have "batch rows bsz (word_of_int i) = Inr ?b" using assms by (simp add: batch_rows)
  with full short have "\<exists>b. batch rows bsz (word_of_int i) = Inr b
           \<and> b = take (nat bsz) (drop (nat (i * bsz)) rows)
           \<and> (i < int (length rows) div bsz \<longrightarrow>
                length b = nat bsz \<and> (\<forall>j < nat bsz. b ! j = rows ! (nat (i * bsz) + j)))
           \<and> (int (length rows) div bsz \<le> i \<longrightarrow> length b < nat bsz)"
    by blast
  moreover have "\<forall>index. \<exists>b. batch rows bsz index = Inr b"
    by (simp add: batch_never_raises)
  ultimately show ?thesis by blast
qed

theorem batch_clips_to_split_witness:
  "(0 :: int) < 2 \<and> (0 :: int) \<le> 1 \<and> ((1 :: int) + 1) * 2 < 2 ^ 63
     \<and> ((2 :: int) + 1) * 2 < 2 ^ 63
     \<and> batch [0, 1, 2, 3, 4 :: int] 2 1 = Inr [2, 3]
     \<and> batch [0, 1, 2, 3, 4 :: int] 2 2 = Inr [4]"
  using batch_clips_to_split [of 2 1 "[0, 1, 2, 3, 4 :: int]"]
        batch_clips_to_split [of 2 2 "[0, 1, 2, 3, 4 :: int]"] by simp

text \<open>
  The claim C7 as stated fails: on a split of five rows and a batch size of 2 there are
  two minibatches, and the index 2 yields the one remaining row instead of a bounds error.
\<close>

theorem batch_past_end_counterexample:
  "n_batches [0, 1, 2, 3, 4 :: int] 2 = Inr 2 \<and> batch [0, 1, 2, 3, 4 :: int] 2 2 = Inr [4]"
  by (simp add: n_batches_def batch_def py_slice_def slice_bound_def)

section \<open>Error rate properties\<close>

text \<open>
  With equal numbers of dimensions \<^verbatim>\<open>errors\<close> does what is asked of it: it raises
  \<^verbatim>\<open>NotImplementedError\<close> when the name of the label type does not start with
  \<^verbatim>\<open>int\<close>, and otherwise returns the mean of the vector that marks the entries where
  prediction and label differ.
\<close>

lemma errors_dtype_not_int:
  "ndim y = ndim y_pred \<Longrightarrow> \<not> startswith (dtype y) ''int''
     \<Longrightarrow> errors ops y_pred y = Inl NotImplementedError"
  by (simp add: errors_def)

lemma errors_int_labels:
  "ndim y = ndim y_pred \<Longrightarrow> startswith (dtype y) ''int''
     \<Longrightarrow> length (elems y_pred) = length (elems y)
     \<Longrightarrow> errors ops y_pred y = Inr (mean_neq ops (elems y_pred) (elems y))"
  by (simp add: errors_def)

lemma errors_ndim_mismatch:
  "ndim y \<noteq> ndim y_pred \<Longrightarrow> errors ops y_pred y = Inl NameError"
  by (simp add: errors_def)

text \<open>
  The compiled functions of the training run evaluate \<^verbatim>\<open>errors\<close> on the predictions
  for the rows of a minibatch and on the labels of the same rows, an \<^verbatim>\<open>ivector\<close>:
  the two vectors have the same length and the value is their error rate.
\<close>

lemma errors_on_minibatch:
  "errors ops \<lparr>ndim = 1, dtype = ''int64'', elems = map (\<lambda>(x, y). f x) rows\<rparr>
      \<lparr>ndim = 1, dtype = ''int32'', elems = map snd rows\<rparr>
     = Inr (mean_neq ops (map (\<lambda>(x, y). f x) rows) (map snd rows))"
  by (simp add: errors_def startswith_def)

text \<open>With exact arithmetic the error rate is the share of the entries that differ.\<close>

lemma foldl_mistakes:
  "foldl exact_add (FVal a) (map (\<lambda>(p, t). FVal (if p \<noteq> t then 1 else 0)) zs)
     = FVal (a + real (length (filter (\<lambda>(p, t). p \<noteq> t) zs)))"
  by (induction zs arbitrary: a) (auto simp: algebra_simps)

lemma exact_mean_neq_fraction:
  assumes "length ps = length ts" and "ps \<noteq> []"
  shows "exact_mean_neq ps ts
           = FVal (real (length (filter (\<lambda>(p, t). p \<noteq> t) (zip ps ts))) / real (length ps))"
proof -
  from assms have "ts \<noteq> []" by auto
  with assms show ?thesis
    by (simp add: exact_mean_neq_def exact_mean_def foldl_mistakes)
qed

lemma errors_examples:
  "errors exact_floats \<lparr>ndim = 1, dtype = ''int64'', elems = [0, 1, 1, 0]\<rparr>
          \<lparr>ndim = 1, dtype = ''int32'', elems = [0, 1, 0, 1]\<rparr> = Inr (FVal (1 / 2))"
  "errors exact_floats \<lparr>ndim = 1, dtype = ''int64'', elems = [0, 1]\<rparr>
          \<lparr>ndim = 1, dtype = ''float64'', elems = [0, 1]\<rparr> = Inl NotImplementedError"
  "errors exact_floats \<lparr>ndim = 1, dtype = ''int64'', elems = [0, 1]\<rparr>
          \<lparr>ndim = 1, dtype = ''int32'', elems = [0, 1, 1]\<rparr> = Inl ValueError"
  by (simp_all add: errors_def startswith_def exact_floats_def exact_mean_neq_def
      exact_mean_def)

text \<open>
  Claim C6 at a label tensor of two dimensions against a prediction vector: the
  dimension check of line 139 fires, and what is raised is the \<^verbatim>\<open>NameError\<close> of
  line 141 rather than the \<^verbatim>\<open>TypeError\<close> about the shape that line 140 sets
  out to raise. The two failures of \<^verbatim>\<open>errors\<close> remain distinct.
\<close>

theorem errors_ndim_mismatch_raises_NameError:
  "errors ops \<lparr>ndim = 1, dtype = ''int64'', elems = [0, 1]\<rparr>
          \<lparr>ndim = 2, dtype = ''int32'', elems = [0, 1]\<rparr> = Inl NameError"
  by (simp add: errors_def)

lemma map_result_all_Inr:
  assumes "\<And>a. \<exists>b. f a = Inr b"
  shows "\<exists>bs. map_result f as = Inr bs"
proof (induction as)
  case Nil
  show ?case by simp
next
  case (Cons a as)
  from assms obtain b where "f a = Inr b" by blast
  moreover from Cons obtain bs where "map_result f as = Inr bs" by blast
  ultimately show ?case by simp
qed

lemma map_result_values:
  "map_result f as = Inr bs \<Longrightarrow> bs = map (\<lambda>a. projr (f a)) as"
  by (induction as arbitrary: bs) (auto split: sum.splits)

lemma validate_model_Inr: "\<exists>v. validate_model c i p = Inr v"
  by (simp add: validate_model_def batch_def)

lemma test_model_Inr: "\<exists>v. test_model c i p = Inr v"
  by (simp add: test_model_def batch_def)

lemma train_model_Inr: "\<exists>q. train_model c i p = Inr q"
  by (simp add: train_model_def batch_def)

lemma validation_losses_Inr:
  "map_result (\<lambda>i. validate_model c i p) (xrange (n_valid_batches c))
     = Inr ls \<Longrightarrow> this_validation_loss c p = numpy_mean (floats c) ls"
  using map_result_values [of "\<lambda>i. validate_model c i p" "xrange (n_valid_batches c)" ls]
  by (simp add: this_validation_loss_def)

lemma test_losses_Inr:
  "map_result (\<lambda>i. test_model c i p) (xrange (n_test_batches c))
     = Inr ls \<Longrightarrow> this_test_loss c p = numpy_mean (floats c) ls"
  using map_result_values [of "\<lambda>i. test_model c i p" "xrange (n_test_batches c)" ls]
  by (simp add: this_test_loss_def)

lemma validation_check_eq:
  "validation_check c iter s =
     Inr (if float_lt (floats c) (this_validation_loss c (params s)) (best_validation_loss s)
          then (if float_lt (floats c) (this_validation_loss c (params s))
                     (float_mul (floats c) (best_validation_loss s) (improvement_threshold (floats c)))
                then s\<lparr>patience := max (patience s) (iter * patience_increase)\<rparr>
                else s)
               \<lparr>best_validation_loss := this_validation_loss c (params s),
                test_score := this_test_loss c (params s)\<rparr>
          else s)"
proof -
  obtain ls where ls: "map_result (\<lambda>i. validate_model c i (params s)) (xrange (n_valid_batches c)) = Inr ls"
    using map_result_all_Inr [of "\<lambda>i. validate_model c i (params s)"] validate_model_Inr by metis
  obtain ts where ts: "map_result (\<lambda>i. test_model c i (params s)) (xrange (n_test_batches c)) = Inr ts"
    using map_result_all_Inr [of "\<lambda>i. test_model c i (params s)"] test_model_Inr by metis
  show ?thesis
    by (simp add: validation_check_def ls ts validation_losses_Inr [OF ls] test_losses_Inr [OF ts] Let_def)
qed

lemma minibatch_step_eq:
  assumes "minibatch_step c epoch i s = Inr s'"
  shows "\<exists>p s2. train_model c i (params s) = Inr p
           \<and> validation_frequency (n_train_batches c) \<noteq> 0
           \<and> s2 = (if validation_event c epoch i
                    then projr (validation_check c (iter_of c epoch i) (s\<lparr>params := p\<rparr>))
                    else s\<lparr>params := p\<rparr>)
           \<and> s' = (if patience s2 \<le> iter_of c epoch i then s2\<lparr>done_looping := True\<rparr> else s2)"
proof -
  obtain p where p: "train_model c i (params s) = Inr p"
    using train_model_Inr [of c i "params s"] by blast
  show ?thesis
    using assms
    by (auto simp add: minibatch_step_def p Let_def validation_check_eq iter_of_def
        validation_event_def split: if_splits)
qed

lemma step_fields:
  assumes "minibatch_step c epoch i s = Inr s'"
  shows "train_model c i (params s) = Inr (params s')
       \<and> validation_frequency (n_train_batches c) \<noteq> 0
       \<and> patience s' =
           (if validation_event c epoch i
               \<and> float_lt (floats c) (this_validation_loss c (params s')) (best_validation_loss s)
               \<and> float_lt (floats c) (this_validation_loss c (params s'))
                    (float_mul (floats c) (best_validation_loss s) (improvement_threshold (floats c)))
            then max (patience s) (iter_of c epoch i * patience_increase)
            else patience s)
       \<and> best_validation_loss s' =
           (if validation_event c epoch i
               \<and> float_lt (floats c) (this_validation_loss c (params s')) (best_validation_loss s)
            then this_validation_loss c (params s')
            else best_validation_loss s)
       \<and> test_score s' =
           (if validation_event c epoch i
               \<and> float_lt (floats c) (this_validation_loss c (params s')) (best_validation_loss s)
            then this_test_loss c (params s')
            else test_score s)
       \<and> done_looping s' = (done_looping s \<or> patience s' \<le> iter_of c epoch i)"
proof -
  from minibatch_step_eq [OF assms] obtain p s2 where
    p: "train_model c i (params s) = Inr p" and
    vf: "validation_frequency (n_train_batches c) \<noteq> 0" and
    s2: "s2 = (if validation_event c epoch i
               then projr (validation_check c (iter_of c epoch i) (s\<lparr>params := p\<rparr>))
               else s\<lparr>params := p\<rparr>)" and
    s': "s' = (if patience s2 \<le> iter_of c epoch i then s2\<lparr>done_looping := True\<rparr> else s2)"
    by blast
  have a1: "params s2 = p"
    using s2 by (simp add: validation_check_eq)
  have a2: "patience s2 =
           (if validation_event c epoch i
               \<and> float_lt (floats c) (this_validation_loss c p) (best_validation_loss s)
               \<and> float_lt (floats c) (this_validation_loss c p)
                    (float_mul (floats c) (best_validation_loss s) (improvement_threshold (floats c)))
            then max (patience s) (iter_of c epoch i * patience_increase)
            else patience s)"
    using s2 by (simp add: validation_check_eq)
  have a3: "best_validation_loss s2 =
           (if validation_event c epoch i
               \<and> float_lt (floats c) (this_validation_loss c p) (best_validation_loss s)
            then this_validation_loss c p
            else best_validation_loss s)"
    using s2 by (simp add: validation_check_eq)
  have a4: "test_score s2 =
           (if validation_event c epoch i
               \<and> float_lt (floats c) (this_validation_loss c p) (best_validation_loss s)
            then this_test_loss c p
            else test_score s)"
    using s2 by (simp add: validation_check_eq)
  have a5: "done_looping s2 = done_looping s"
    using s2 by (simp add: validation_check_eq)
  have b1: "params s' = params s2" using s' by simp
  have b2: "patience s' = patience s2" using s' by simp
  have b3: "best_validation_loss s' = best_validation_loss s2" using s' by simp
  have b4: "test_score s' = test_score s2" using s' by simp
  have b5: "done_looping s' = (done_looping s2 \<or> patience s2 \<le> iter_of c epoch i)"
    using s' by simp
  have pp: "params s' = p" using a1 b1 by simp
  show ?thesis
    unfolding pp b2 b3 b4 b5 a5 using p vf a2 a3 a4 by simp
qed

section \<open>The patience over a run\<close>

lemma step_patience_mono:
  assumes "minibatch_step c epoch i s = Inr s'"
  shows "patience s \<le> patience s'"
proof -
  have "patience s' = max (patience s) (iter_of c epoch i * patience_increase)
          \<or> patience s' = patience s"
    using step_fields [OF assms] by presburger
  then show ?thesis by auto
qed

lemma minibatch_loop_patience_mono:
  "minibatch_loop c epoch is s = Inr s' \<Longrightarrow> patience s \<le> patience s'"
proof (induction "is" arbitrary: s)
  case Nil
  then show ?case by simp
next
  case (Cons i "is")
  from Cons.prems obtain s1 where
    s1: "minibatch_step c epoch i s = Inr s1" and
    rest: "(if done_looping s1 then Inr s1 else minibatch_loop c epoch is s1) = Inr s'"
    by (auto split: sum.splits)
  have a: "patience s \<le> patience s1" using s1 by (rule step_patience_mono)
  show ?case
  proof (cases "done_looping s1")
    case True
    with rest a show ?thesis by simp
  next
    case False
    with rest have "minibatch_loop c epoch is s1 = Inr s'" by simp
    then have "patience s1 \<le> patience s'" by (rule Cons.IH)
    with a show ?thesis by simp
  qed
qed

lemma epoch_loop_patience_mono:
  "epoch_loop c epoch s = Inr (epoch', s') \<Longrightarrow> patience s \<le> patience s'"
proof (induction c epoch s rule: epoch_loop.induct)
  case (1 c epoch s)
  show ?case
  proof (cases "epoch < n_epochs c \<and> \<not> done_looping s")
    case True
    with "1.prems" obtain s1 where
      s1: "minibatch_loop c (epoch + 1) (xrange (n_train_batches c)) s = Inr s1" and
      rest: "epoch_loop c (epoch + 1) s1 = Inr (epoch', s')"
      by (auto simp: epoch_loop.simps [of c epoch s] split: sum.splits)
    have "patience s \<le> patience s1" using s1 by (rule minibatch_loop_patience_mono)
    moreover have "patience s1 \<le> patience s'" using True s1 rest by (rule "1.IH")
    ultimately show ?thesis by simp
  next
    case False
    with "1.prems" show ?thesis by (simp add: epoch_loop.simps [of c epoch s])
  qed
qed

lemma sgd_run_loop:
  assumes "sgd_optimization_mnist inp = Inr r"
  shows "\<exists>n_train n_valid n_test.
           n_batches (train_set inp) (batch_size inp) = Inr n_train
         \<and> n_batches (valid_set inp) (batch_size inp) = Inr n_valid
         \<and> n_batches (test_set inp) (batch_size inp) = Inr n_test
         \<and> epoch_loop (env_of inp n_train n_valid n_test) 0 (initial_state inp) = Inr r"
  using assms by (simp add: sgd_optimization_mnist_def split: sum.splits)

text \<open>
  Claim C10. The patience never decreases: a pass through the loop body leaves it as it
  was or replaces it by the maximum of itself and \<open>iter * patience_increase\<close>, so it is
  at least as large after one minibatch, after any stretch of the \<^verbatim>\<open>while\<close> loop,
  and at the end of a run, where it is at least the initial 5000.
\<close>

theorem patience_never_decreases:
  "(minibatch_step c epoch i s = Inr s1 \<longrightarrow> patience s \<le> patience s1)
   \<and> (epoch_loop c epoch s = Inr (epoch', s') \<longrightarrow> patience s \<le> patience s')
   \<and> (sgd_optimization_mnist inp = Inr (epochs_run, final) \<longrightarrow> patience0 \<le> patience final)"
proof (intro conjI impI)
  assume "minibatch_step c epoch i s = Inr s1"
  then show "patience s \<le> patience s1" by (rule step_patience_mono)
next
  assume "epoch_loop c epoch s = Inr (epoch', s')"
  then show "patience s \<le> patience s'" by (rule epoch_loop_patience_mono)
next
  assume run: "sgd_optimization_mnist inp = Inr (epochs_run, final)"
  from sgd_run_loop [OF run] obtain n_train n_valid n_test where
    "epoch_loop (env_of inp n_train n_valid n_test) 0 (initial_state inp)
       = Inr (epochs_run, final)"
    by blast
  then have "patience (initial_state inp) \<le> patience final" by (rule epoch_loop_patience_mono)
  then show "patience0 \<le> patience final" by (simp add: initial_state_def)
qed

theorem patience_never_decreases_witness:
  "minibatch_step (env_of (toy_inputs 2573 83 1 1 1 1000) 83 1 1) 31 82
        \<lparr>params = 2572, patience = 5000, best_validation_loss = FVal 1, test_score = FVal 1,
         done_looping = False\<rparr>
     = Inr \<lparr>params = 2573, patience = 5144, best_validation_loss = FVal 0,
            test_score = FVal 0, done_looping = False\<rparr>
   \<and> (5000 :: int) \<le> 5144"
proof -
  let ?c = "env_of (toy_inputs 2573 83 1 1 1 1000) 83 1 1"
  let ?s = "\<lparr>params = 2572, patience = 5000, best_validation_loss = FVal 1,
             test_score = FVal 1, done_looping = False\<rparr> :: (int, pyfloat) train_state"
  let ?s' = "\<lparr>params = 2573, patience = 5144, best_validation_loss = FVal 0,
              test_score = FVal 0, done_looping = False\<rparr> :: (int, pyfloat) train_state"
  have step: "minibatch_step ?c 31 82 ?s = Inr ?s'" by (simp add: toy_eval)
  have "patience ?s \<le> patience ?s'"
    using patience_never_decreases [where c = ?c and epoch = 31 and i = 82 and s = ?s
        and ?s1.0 = ?s', THEN conjunct1] step by blast
  with step show ?thesis by simp
qed

section \<open>The early-stopping controller\<close>

lemma test_set_not_read:
  "train_model (c\<lparr>test_set := ts, n_test_batches := k\<rparr>) i p = train_model c i p"
  "validate_model (c\<lparr>test_set := ts, n_test_batches := k\<rparr>) i p = validate_model c i p"
  "this_validation_loss (c\<lparr>test_set := ts, n_test_batches := k\<rparr>) p = this_validation_loss c p"
  "validation_event (c\<lparr>test_set := ts, n_test_batches := k\<rparr>) epoch i = validation_event c epoch i"
  "iter_of (c\<lparr>test_set := ts, n_test_batches := k\<rparr>) epoch i = iter_of c epoch i"
  by (simp_all add: train_model_def validate_model_def this_validation_loss_def
      validation_event_def iter_of_def batch_def)

lemma minibatch_step_closed:
  "minibatch_step c epoch i s =
     (case train_model c i (params s) of
        Inl e \<Rightarrow> Inl e
      | Inr p \<Rightarrow>
          if validation_frequency (n_train_batches c) = 0 then Inl ZeroDivisionError
          else Inr (let s2 = (if validation_event c epoch i
                              then projr (validation_check c (iter_of c epoch i) (s\<lparr>params := p\<rparr>))
                              else s\<lparr>params := p\<rparr>)
                    in if patience s2 \<le> iter_of c epoch i
                       then s2\<lparr>done_looping := True\<rparr> else s2))"
  by (simp add: minibatch_step_def validation_check_eq validation_event_def iter_of_def Let_def
      split: sum.splits)

lemma test_set_frame:
  assumes "minibatch_step c epoch i s = Inr s'"
    and "\<not> (validation_event c epoch i
            \<and> float_lt (floats c) (this_validation_loss c (params s')) (best_validation_loss s))"
  shows "minibatch_step (c\<lparr>test_set := ts, n_test_batches := k\<rparr>) epoch i s = Inr s'"
proof -
  have p: "train_model c i (params s) = Inr (params s')"
    using step_fields [OF assms(1)] by simp
  have vf: "validation_frequency (n_train_batches c) \<noteq> 0"
    using step_fields [OF assms(1)] by simp
  have "minibatch_step (c\<lparr>test_set := ts, n_test_batches := k\<rparr>) epoch i s
          = minibatch_step c epoch i s"
    using assms(2) vf
    by (simp add: minibatch_step_closed test_set_not_read p validation_check_eq)
  with assms(1) show ?thesis by simp
qed

text \<open>
  Claim C1, as the code has it. The test \<^verbatim>\<open>patience <= iter\<close> of line 368 is made in
  every pass through the loop body, validation event or not, after the validation block
  when there is one: a pass sets \<open>done_looping\<close> exactly when the patience it ends with is
  at most \<open>iter\<close>, the zero-based count of line 337. Between two validation events the
  patience stays as it was, and the loop stops at the first minibatch that reaches it.
\<close>

theorem stop_test_at_every_minibatch:
  assumes "minibatch_step c epoch i s = Inr s'" and "\<not> done_looping s"
  shows "done_looping s' = (patience s' \<le> iter_of c epoch i)
       \<and> (\<not> validation_event c epoch i \<longrightarrow> patience s' = patience s)"
  using step_fields [OF assms(1)] assms(2) by simp

theorem stop_test_at_every_minibatch_witness:
  "\<not> validation_event (env_of (toy_inputs 10000 2 1 1 1 3000) 2 1 1) 2501 0
   \<and> minibatch_step (env_of (toy_inputs 10000 2 1 1 1 3000) 2 1 1) 2501 0
        \<lparr>params = 5000, patience = 5000, best_validation_loss = FVal 1, test_score = FVal 1,
         done_looping = False\<rparr>
       = Inr \<lparr>params = 5001, patience = 5000, best_validation_loss = FVal 1,
              test_score = FVal 1, done_looping = True\<rparr>
   \<and> 5000 \<le> iter_of (env_of (toy_inputs 10000 2 1 1 1 3000) 2 1 1) 2501 0"
proof -
  let ?c = "env_of (toy_inputs 10000 2 1 1 1 3000) 2 1 1"
  let ?s = "\<lparr>params = 5000, patience = 5000, best_validation_loss = FVal 1,
             test_score = FVal 1, done_looping = False\<rparr> :: (int, pyfloat) train_state"
  let ?s' = "\<lparr>params = 5001, patience = 5000, best_validation_loss = FVal 1,
              test_score = FVal 1, done_looping = True\<rparr> :: (int, pyfloat) train_state"
  have step: "minibatch_step ?c 2501 0 ?s = Inr ?s'" by (simp add: toy_eval)
  have nd: "\<not> done_looping ?s" by simp
  have ne: "\<not> validation_event ?c 2501 0"
    by (simp add: validation_event_def iter_of_def toy_eval)
  from stop_test_at_every_minibatch [OF step nd] step ne show ?thesis by simp
qed

text \<open>
  Claim C2, as the code has it. The test of line 352 stands inside the branch of the test
  of line 350. At every validation event whose validation loss is below
  \<open>best_validation_loss\<close> and below \<open>best_validation_loss * improvement_threshold\<close>, the
  comparisons and the product being those of the floating-point arithmetic, the patience
  becomes the maximum of itself and \<open>iter * patience_increase\<close>, where \<open>iter\<close> is the
  zero-based count of line 337, one less than the number of minibatches processed so far.
  In every other pass the patience is left as it was. The validation loss is that of the
  parameters after the update of this pass, which are the parameters of the resulting
  state.
\<close>

theorem patience_extension_from_zero_based_iter:
  assumes "minibatch_step c epoch i s = Inr s'"
  shows "patience s' =
           (if validation_event c epoch i
               \<and> float_lt (floats c) (this_validation_loss c (params s'))
                    (best_validation_loss s)
               \<and> float_lt (floats c) (this_validation_loss c (params s'))
                    (float_mul (floats c) (best_validation_loss s)
                       (improvement_threshold (floats c)))
            then max (patience s) (iter_of c epoch i * patience_increase)
            else patience s)"
  using step_fields [OF assms] by simp

theorem patience_extension_from_zero_based_iter_witness:
  "minibatch_step (env_of (toy_inputs 2573 83 1 1 1 1000) 83 1 1) 31 82
        \<lparr>params = 2572, patience = 5000, best_validation_loss = FVal 1, test_score = FVal 1,
         done_looping = False\<rparr>
     = Inr \<lparr>params = 2573, patience = 5144, best_validation_loss = FVal 0,
            test_score = FVal 0, done_looping = False\<rparr>
   \<and> validation_event (env_of (toy_inputs 2573 83 1 1 1 1000) 83 1 1) 31 82
   \<and> this_validation_loss (env_of (toy_inputs 2573 83 1 1 1 1000) 83 1 1) 2573 = FVal 0
   \<and> exact_lt (FVal 0) (FVal 1)
   \<and> exact_lt (FVal 0) (exact_mul (FVal 1) (improvement_threshold exact_floats))
   \<and> (5144 :: int) = max 5000 (iter_of (env_of (toy_inputs 2573 83 1 1 1 1000) 83 1 1) 31 82
                               * patience_increase)"
proof -
  let ?c = "env_of (toy_inputs 2573 83 1 1 1 1000) 83 1 1"
  let ?s = "\<lparr>params = 2572, patience = 5000, best_validation_loss = FVal 1,
             test_score = FVal 1, done_looping = False\<rparr> :: (int, pyfloat) train_state"
  let ?s' = "\<lparr>params = 2573, patience = 5144, best_validation_loss = FVal 0,
              test_score = FVal 0, done_looping = False\<rparr> :: (int, pyfloat) train_state"
  have step: "minibatch_step ?c 31 82 ?s = Inr ?s'" by (simp add: toy_eval)
  have ev: "validation_event ?c 31 82"
    by (simp add: validation_event_def iter_of_def toy_eval)
  have v: "this_validation_loss ?c 2573 = FVal 0"
    by (simp add: this_validation_loss_def toy_eval)
  have fl: "floats ?c = exact_floats" by (simp add: toy_eval)
  have lt1: "exact_lt (FVal 0) (FVal 1)" by simp
  have lt2: "exact_lt (FVal 0) (exact_mul (FVal 1) (improvement_threshold exact_floats))"
    by (simp add: exact_floats_def)
  have "patience ?s' =
           (if validation_event ?c 31 82
               \<and> float_lt (floats ?c) (this_validation_loss ?c (params ?s'))
                    (best_validation_loss ?s)
               \<and> float_lt (floats ?c) (this_validation_loss ?c (params ?s'))
                    (float_mul (floats ?c) (best_validation_loss ?s)
                       (improvement_threshold (floats ?c)))
            then max (patience ?s) (iter_of ?c 31 82 * patience_increase)
            else patience ?s)"
    using step by (rule patience_extension_from_zero_based_iter)
  then have "(5144 :: int) = max 5000 (iter_of ?c 31 82 * patience_increase)"
    using ev v lt1 lt2 unfolding fl by (simp add: exact_floats_def)
  with step ev v lt1 lt2 show ?thesis by blast
qed

text \<open>
  Claim C4. A pass through the loop body changes \<open>best_validation_loss\<close> and
  \<open>test_score\<close> only at a validation event whose validation loss is strictly below the
  current best: then the best becomes that loss and the test score the mean error over
  the test minibatches. In every other pass both keep their values and the test split is
  not read: the pass gives the same result whatever the test split is.
\<close>

theorem best_scores_change_only_on_new_best:
  assumes "minibatch_step c epoch i s = Inr s'"
  shows "(validation_event c epoch i
            \<and> float_lt (floats c) (this_validation_loss c (params s')) (best_validation_loss s)
          \<longrightarrow> best_validation_loss s' = this_validation_loss c (params s')
              \<and> test_score s' = this_test_loss c (params s'))
       \<and> (\<not> (validation_event c epoch i
               \<and> float_lt (floats c) (this_validation_loss c (params s')) (best_validation_loss s))
          \<longrightarrow> best_validation_loss s' = best_validation_loss s
              \<and> test_score s' = test_score s
              \<and> (\<forall>ts k. minibatch_step (c\<lparr>test_set := ts, n_test_batches := k\<rparr>) epoch i s
                           = Inr s'))"
  using step_fields [OF assms] test_set_frame [OF assms] by simp

theorem best_scores_change_only_on_new_best_witness:
  "minibatch_step (env_of (toy_inputs 2573 83 1 1 1 1000) 83 1 1) 31 82
        \<lparr>params = 2572, patience = 5000, best_validation_loss = FVal 1, test_score = FVal 1,
         done_looping = False\<rparr>
     = Inr \<lparr>params = 2573, patience = 5144, best_validation_loss = FVal 0,
            test_score = FVal 0, done_looping = False\<rparr>
   \<and> this_validation_loss (env_of (toy_inputs 2573 83 1 1 1 1000) 83 1 1) 2573 = FVal 0
   \<and> this_test_loss (env_of (toy_inputs 2573 83 1 1 1 1000) 83 1 1) 2573 = FVal 0
   \<and> minibatch_step (env_of (toy_inputs 2573 83 1 1 1 1000) 83 1 1) 32 82
        \<lparr>params = 2655, patience = 5144, best_validation_loss = FVal 0, test_score = FVal 0,
         done_looping = False\<rparr>
     = Inr \<lparr>params = 2656, patience = 5144, best_validation_loss = FVal 0,
            test_score = FVal 0, done_looping = False\<rparr>
   \<and> minibatch_step
        ((env_of (toy_inputs 2573 83 1 1 1 1000) 83 1 1)\<lparr>test_set := [], n_test_batches := 0\<rparr>)
        32 82
        \<lparr>params = 2655, patience = 5144, best_validation_loss = FVal 0, test_score = FVal 0,
         done_looping = False\<rparr>
     = Inr \<lparr>params = 2656, patience = 5144, best_validation_loss = FVal 0,
            test_score = FVal 0, done_looping = False\<rparr>"
proof -
  let ?c = "env_of (toy_inputs 2573 83 1 1 1 1000) 83 1 1"
  let ?s = "\<lparr>params = 2572, patience = 5000, best_validation_loss = FVal 1,
             test_score = FVal 1, done_looping = False\<rparr> :: (int, pyfloat) train_state"
  let ?s' = "\<lparr>params = 2573, patience = 5144, best_validation_loss = FVal 0,
              test_score = FVal 0, done_looping = False\<rparr> :: (int, pyfloat) train_state"
  let ?t = "\<lparr>params = 2655, patience = 5144, best_validation_loss = FVal 0,
             test_score = FVal 0, done_looping = False\<rparr> :: (int, pyfloat) train_state"
  let ?t' = "\<lparr>params = 2656, patience = 5144, best_validation_loss = FVal 0,
              test_score = FVal 0, done_looping = False\<rparr> :: (int, pyfloat) train_state"
  have step1: "minibatch_step ?c 31 82 ?s = Inr ?s'" by (simp add: toy_eval)
  have step2: "minibatch_step ?c 32 82 ?t = Inr ?t'" by (simp add: toy_eval)
  have ev1: "validation_event ?c 31 82"
    by (simp add: validation_event_def iter_of_def toy_eval)
  have v1: "this_validation_loss ?c 2573 = FVal 0"
    by (simp add: this_validation_loss_def toy_eval)
  have v2: "this_validation_loss ?c 2656 = FVal 0"
    by (simp add: this_validation_loss_def toy_eval)
  have fl: "floats ?c = exact_floats" by (simp add: toy_eval)
  have lt1: "float_lt (floats ?c) (this_validation_loss ?c (params ?s'))
               (best_validation_loss ?s)"
    using v1 unfolding fl by (simp add: exact_floats_def)
  have nlt2: "\<not> float_lt (floats ?c) (this_validation_loss ?c (params ?t'))
                  (best_validation_loss ?t)"
    using v2 unfolding fl by (simp add: exact_floats_def)
  have "test_score ?s' = this_test_loss ?c (params ?s')"
    using best_scores_change_only_on_new_best [OF step1, THEN conjunct1] ev1 lt1 by blast
  then have a: "this_test_loss ?c 2573 = FVal 0" by simp
  have b: "minibatch_step (?c\<lparr>test_set := [], n_test_batches := 0\<rparr>) 32 82 ?t = Inr ?t'"
    using best_scores_change_only_on_new_best [OF step2, THEN conjunct2] nlt2 by blast
  from step1 step2 v1 a b show ?thesis by simp
qed
section \<open>The loop raises nothing\<close>

lemma validation_frequency_pos: "1 \<le> n \<Longrightarrow> 1 \<le> validation_frequency n"
  by (simp add: validation_frequency_def patience0_def)

lemma xrange_nonempty: "xrange n \<noteq> [] \<Longrightarrow> 1 \<le> n"
  by (simp add: xrange_def)

lemma minibatch_step_total:
  assumes "validation_frequency (n_train_batches c) \<noteq> 0"
  shows "\<exists>s'. minibatch_step c epoch i s = Inr s'"
proof -
  obtain p where "train_model c i (params s) = Inr p"
    using train_model_Inr [of c i "params s"] by blast
  with assms show ?thesis by (simp add: minibatch_step_closed)
qed

lemma minibatch_loop_total:
  assumes "validation_frequency (n_train_batches c) \<noteq> 0"
  shows "\<exists>s'. minibatch_loop c epoch is s = Inr s'"
proof (induction "is" arbitrary: s)
  case Nil
  show ?case by simp
next
  case (Cons i "is")
  obtain s1 where s1: "minibatch_step c epoch i s = Inr s1"
    using minibatch_step_total [OF assms] by blast
  from Cons [of s1] obtain s2 where "minibatch_loop c epoch is s1 = Inr s2" by blast
  with s1 show ?case by simp
qed

lemma epoch_minibatches_total:
  "\<exists>s'. minibatch_loop c epoch (xrange (n_train_batches c)) s = Inr s'"
proof (cases "xrange (n_train_batches c) = []")
  case True
  then show ?thesis by simp
next
  case False
  then have "1 \<le> n_train_batches c" by (rule xrange_nonempty)
  then have "1 \<le> validation_frequency (n_train_batches c)" by (rule validation_frequency_pos)
  then have "validation_frequency (n_train_batches c) \<noteq> 0" by simp
  then show ?thesis by (rule minibatch_loop_total)
qed

lemma epoch_loop_exit:
  "\<not> (epoch < n_epochs c \<and> \<not> done_looping s) \<Longrightarrow> epoch_loop c epoch s = Inr (epoch, s)"
  by (subst epoch_loop.simps) auto

lemma epoch_loop_continue:
  "epoch < n_epochs c \<and> \<not> done_looping s \<Longrightarrow>
     minibatch_loop c (epoch + 1) (xrange (n_train_batches c)) s = Inr s1 \<Longrightarrow>
     epoch_loop c epoch s = epoch_loop c (epoch + 1) s1"
  by (subst epoch_loop.simps) simp

lemma epoch_loop_total: "\<exists>r. epoch_loop c epoch s = Inr r"
proof (induction c epoch s rule: epoch_loop.induct)
  case (1 c epoch s)
  show ?case
  proof (cases "epoch < n_epochs c \<and> \<not> done_looping s")
    case True
    obtain s1 where s1: "minibatch_loop c (epoch + 1) (xrange (n_train_batches c)) s = Inr s1"
      using epoch_minibatches_total by blast
    from "1.IH" [OF True s1] obtain r where "epoch_loop c (epoch + 1) s1 = Inr r" by blast
    with epoch_loop_continue [OF True s1] show ?thesis by simp
  next
    case False
    then show ?thesis by (simp add: epoch_loop_exit)
  qed
qed

lemma sgd_run_total:
  assumes "batch_size inp \<noteq> 0"
  shows "\<exists>r. sgd_optimization_mnist inp = Inr r"
  using assms epoch_loop_total by (simp add: sgd_optimization_mnist_def n_batches_def)

text \<open>
  Claim C5, as the code has it. The validation frequency is computed once as
  \<open>min n_train_batches (5000 / 2)\<close>, with the initial patience fixed at 5000 and with no
  floor: it is at least 1 whenever there is at least one training minibatch. The loop body
  runs only then, so the \<^verbatim>\<open>%\<close> of line 339 never divides by zero: the loop raises
  nothing, and neither does the whole run once the batch size is not zero.
\<close>

theorem cadence_check_never_divides_by_zero:
  "validation_frequency n = min n 2500
   \<and> (1 \<le> n \<longrightarrow> 1 \<le> validation_frequency n)
   \<and> (\<exists>r. epoch_loop c epoch s = Inr r)
   \<and> (batch_size inp \<noteq> 0 \<longrightarrow> (\<exists>r. sgd_optimization_mnist inp = Inr r))"
  using validation_frequency_pos [of n] epoch_loop_total [of c epoch s] sgd_run_total [of inp]
  by (simp add: validation_frequency_def patience0_def)

theorem cadence_check_never_divides_by_zero_witness:
  "validation_frequency 83 = 83 \<and> (1::int) \<le> 83
   \<and> batch_size (toy_inputs 10000 0 1 1 1 3) \<noteq> 0
   \<and> (\<exists>r. sgd_optimization_mnist (toy_inputs 10000 0 1 1 1 3) = Inr r)"
  using cadence_check_never_divides_by_zero [of 83
      "env_of (toy_inputs 10000 0 1 1 1 3) 0 1 1" 0
      "initial_state (toy_inputs 10000 0 1 1 1 3)" "toy_inputs 10000 0 1 1 1 3"]
  by (simp add: toy_inputs_def validation_frequency_def patience0_def)

text \<open>
  The claim C5 as stated fails: the frequency is not floored. A training split with fewer
  rows than the batch size has no minibatch and the frequency is 0; the run then makes
  its epochs without entering the loop body.
\<close>

theorem validation_frequency_not_floored_counterexample:
  "validation_frequency 0 = 0
   \<and> n_batches (train_set (toy_inputs 10000 0 1 1 1 3)) 1 = Inr 0
   \<and> sgd_optimization_mnist (toy_inputs 10000 0 1 1 1 3)
       = Inr (3, \<lparr>params = 0, patience = 5000, best_validation_loss = FInf,
                  test_score = FVal 0, done_looping = False\<rparr>)"
proof -
  have "sgd_optimization_mnist (toy_inputs 10000 0 1 1 1 3)
       = Inr (3, \<lparr>params = 0, patience = 5000, best_validation_loss = FInf,
                  test_score = FVal 0, done_looping = False\<rparr>)"
    by (simp add: sgd_optimization_mnist_def n_batches_def initial_state_def epoch_loop.simps
        toy_inputs_def env_of_def inputs.extend_def xrange_def patience0_def
        exact_floats_def)
  then show ?thesis
    by (simp add: validation_frequency_def patience0_def n_batches_def toy_inputs_def)
qed

section \<open>How many epochs a run makes\<close>

lemma le_div_int:
  fixes n e P :: int
  assumes "0 < n" and "e * n \<le> P"
  shows "e \<le> P div n"
proof -
  have dm: "n * (P div n) + P mod n = P" by (rule mult_div_mod_eq)
  have r: "P mod n < n" using assms(1) by simp
  have en: "n * e \<le> P" using assms(2) by (simp add: mult.commute)
  have "n * (P div n + 1) = n * (P div n) + n" by (simp add: algebra_simps)
  with dm r en have "n * e < n * (P div n + 1)" by linarith
  then have "e < P div n + 1" using assms(1) by (simp only: mult_less_cancel_left_pos)
  then show ?thesis by simp
qed

lemma div_unique_int:
  fixes n e P :: int
  assumes "0 < n" and "e * n \<le> P" and "P < (e + 1) * n"
  shows "P div n = e"
proof -
  have dm: "n * (P div n) + P mod n = P" by (rule mult_div_mod_eq)
  have r: "0 \<le> P mod n" using assms(1) by simp
  have en: "P < n * (e + 1)" using assms(3) by (simp add: mult.commute)
  from dm r en have "n * (P div n) < n * (e + 1)" by linarith
  then have "P div n < e + 1" using assms(1) by (simp only: mult_less_cancel_left_pos)
  moreover have "e \<le> P div n" using assms(1,2) by (rule le_div_int)
  ultimately show ?thesis by simp
qed

lemma epoch_reaches_patience:
  "(\<exists>i \<in> set (xrange (n_train_batches c)). P \<le> iter_of c epoch i)
     = (1 \<le> n_train_batches c \<and> P < epoch * n_train_batches c)"
proof
  assume "\<exists>i \<in> set (xrange (n_train_batches c)). P \<le> iter_of c epoch i"
  then obtain i where i: "0 \<le> i" "i \<le> n_train_batches c - 1"
    and P: "P \<le> (epoch - 1) * n_train_batches c + i"
    by (auto simp: xrange_def iter_of_def)
  from i have "1 \<le> n_train_batches c" by simp
  moreover from P i have "P < epoch * n_train_batches c" by (simp add: algebra_simps)
  ultimately show "1 \<le> n_train_batches c \<and> P < epoch * n_train_batches c" by simp
next
  assume a: "1 \<le> n_train_batches c \<and> P < epoch * n_train_batches c"
  then have "n_train_batches c - 1 \<in> set (xrange (n_train_batches c))"
    by (simp add: xrange_def)
  moreover from a have "P \<le> iter_of c epoch (n_train_batches c - 1)"
    by (simp add: iter_of_def algebra_simps)
  ultimately show "\<exists>i \<in> set (xrange (n_train_batches c)). P \<le> iter_of c epoch i" by blast
qed

lemma minibatch_loop_stops:
  assumes "minibatch_loop c epoch is s = Inr s'"
    and "patience s' = patience s" and "\<not> done_looping s"
  shows "done_looping s' = (\<exists>i \<in> set is. patience s \<le> iter_of c epoch i)"
  using assms
proof (induction "is" arbitrary: s)
  case Nil
  then show ?case by simp
next
  case (Cons i "is")
  from Cons.prems(1) obtain s1 where
    s1: "minibatch_step c epoch i s = Inr s1" and
    rest: "(if done_looping s1 then Inr s1 else minibatch_loop c epoch is s1) = Inr s'"
    by (auto split: sum.splits)
  have m1: "patience s \<le> patience s1" using s1 by (rule step_patience_mono)
  have d1: "done_looping s1 = (patience s1 \<le> iter_of c epoch i)"
    using step_fields [OF s1] Cons.prems(3) by simp
  show ?case
  proof (cases "done_looping s1")
    case True
    with rest have "s' = s1" by simp
    with True d1 Cons.prems(2) show ?thesis by simp
  next
    case False
    with rest have loop: "minibatch_loop c epoch is s1 = Inr s'" by simp
    then have "patience s1 \<le> patience s'" by (rule minibatch_loop_patience_mono)
    with m1 Cons.prems(2) have eq: "patience s1 = patience s" by simp
    with Cons.prems(2) have pe: "patience s' = patience s1" by simp
    from loop pe False have "done_looping s' = (\<exists>j \<in> set is. patience s1 \<le> iter_of c epoch j)"
      by (rule Cons.IH)
    with False d1 eq show ?thesis by simp
  qed
qed

lemma epochs_when_patience_unchanged:
  assumes "epoch_loop c epoch s = Inr (epoch', s')"
    and "patience s' = patience s" and "\<not> done_looping s"
    and "epoch \<le> n_epochs c" and "1 \<le> n_train_batches c"
    and "epoch * n_train_batches c \<le> patience s"
  shows "epoch' = min (n_epochs c) (patience s div n_train_batches c + 1)"
  using assms
proof (induction c epoch s rule: epoch_loop.induct)
  case (1 c epoch s)
  let ?n = "n_train_batches c"
  have npos: "0 < ?n" using "1.prems"(5) by simp
  show ?case
  proof (cases "epoch < n_epochs c \<and> \<not> done_looping s")
    case True
    obtain s1 where s1: "minibatch_loop c (epoch + 1) (xrange ?n) s = Inr s1"
      using epoch_minibatches_total by blast
    have rest: "epoch_loop c (epoch + 1) s1 = Inr (epoch', s')"
      using epoch_loop_continue [OF True s1] "1.prems"(1) by simp
    have "patience s \<le> patience s1" using s1 by (rule minibatch_loop_patience_mono)
    moreover have "patience s1 \<le> patience s'" using rest by (rule epoch_loop_patience_mono)
    ultimately have p1: "patience s1 = patience s" using "1.prems"(2) by simp
    have d1: "done_looping s1 = (patience s < (epoch + 1) * ?n)"
      using minibatch_loop_stops [OF s1 p1 "1.prems"(3)] "1.prems"(5)
      by (simp add: epoch_reaches_patience)
    show ?thesis
    proof (cases "done_looping s1")
      case True
      then have "epoch_loop c (epoch + 1) s1 = Inr (epoch + 1, s1)"
        by (simp add: epoch_loop_exit)
      with rest have e: "epoch' = epoch + 1" by simp
      from True d1 have "patience s < (epoch + 1) * ?n" by simp
      with npos "1.prems"(6) have "patience s div ?n = epoch" by (rule div_unique_int)
      with e \<open>epoch < n_epochs c \<and> \<not> done_looping s\<close> show ?thesis by simp
    next
      case False
      with d1 have le: "(epoch + 1) * ?n \<le> patience s1" using p1 by simp
      have "epoch' = min (n_epochs c) (patience s1 div ?n + 1)"
        using \<open>epoch < n_epochs c \<and> \<not> done_looping s\<close> s1 rest _ False _ "1.prems"(5) le
      proof (rule "1.IH")
        show "patience s' = patience s1" using p1 "1.prems"(2) by simp
        show "epoch + 1 \<le> n_epochs c" using \<open>epoch < n_epochs c \<and> \<not> done_looping s\<close> by simp
      qed
      with p1 show ?thesis by simp
    qed
  next
    case False
    with "1.prems"(3,4) have eq: "epoch = n_epochs c" by simp
    from False "1.prems"(1) have "epoch' = epoch" by (simp add: epoch_loop_exit)
    moreover have "epoch \<le> patience s div ?n" using npos "1.prems"(6) by (rule le_div_int)
    ultimately show ?thesis using eq by simp
  qed
qed

lemma epochs_without_minibatches:
  assumes "epoch_loop c epoch s = Inr (epoch', s')"
    and "\<not> done_looping s" and "epoch \<le> n_epochs c" and "n_train_batches c \<le> 0"
  shows "epoch' = n_epochs c \<and> s' = s"
  using assms
proof (induction c epoch s rule: epoch_loop.induct)
  case (1 c epoch s)
  show ?case
  proof (cases "epoch < n_epochs c \<and> \<not> done_looping s")
    case True
    have s1: "minibatch_loop c (epoch + 1) (xrange (n_train_batches c)) s = Inr s"
      using "1.prems"(4) by (simp add: xrange_def)
    have rest: "epoch_loop c (epoch + 1) s = Inr (epoch', s')"
      using epoch_loop_continue [OF True s1] "1.prems"(1) by simp
    from True have "epoch + 1 \<le> n_epochs c" by simp
    with True s1 rest "1.prems"(2) show ?thesis using "1.prems"(4) by (rule "1.IH")
  next
    case False
    with "1.prems"(2,3) have "epoch = n_epochs c" by simp
    moreover from False "1.prems"(1) have "epoch' = epoch \<and> s' = s" by (simp add: epoch_loop_exit)
    ultimately show ?thesis by simp
  qed
qed

text \<open>A run on the toy inputs, followed epoch by epoch.\<close>

lemma xrange_1: "xrange 1 = [0]"
  by (simp add: xrange_def)

lemma nan_run_epoch:
  assumes "0 \<le> e" and "e < 5000"
  shows "minibatch_loop (env_of (toy_inputs 10000 1 0 0 1 6000) 1 0 0) (e + 1) (xrange 1)
           \<lparr>params = e, patience = 5000, best_validation_loss = FInf, test_score = FVal 0,
            done_looping = False\<rparr>
         = Inr \<lparr>params = e + 1, patience = 5000, best_validation_loss = FInf,
                test_score = FVal 0, done_looping = False\<rparr>"
  using assms by (simp add: xrange_1 toy_eval)

lemma nan_run_last_epoch:
  "minibatch_loop (env_of (toy_inputs 10000 1 0 0 1 6000) 1 0 0) 5001 (xrange 1)
           \<lparr>params = 5000, patience = 5000, best_validation_loss = FInf, test_score = FVal 0,
            done_looping = False\<rparr>
         = Inr \<lparr>params = 5001, patience = 5000, best_validation_loss = FInf,
                test_score = FVal 0, done_looping = True\<rparr>"
  by (simp add: xrange_1 toy_eval)


lemma nan_run_from:
  "k \<le> 5000 \<Longrightarrow>
     epoch_loop (env_of (toy_inputs 10000 1 0 0 1 6000) 1 0 0) (5000 - int k)
       \<lparr>params = 5000 - int k, patience = 5000, best_validation_loss = FInf,
        test_score = FVal 0, done_looping = False\<rparr>
     = Inr (5001, \<lparr>params = 5001, patience = 5000, best_validation_loss = FInf,
                   test_score = FVal 0, done_looping = True\<rparr>)"
proof (induction k)
  case 0
  let ?c = "env_of (toy_inputs 10000 1 0 0 1 6000) 1 0 0"
  let ?s = "\<lparr>params = 5000, patience = 5000, best_validation_loss = FInf,
             test_score = FVal 0, done_looping = False\<rparr> :: (int, pyfloat) train_state"
  let ?fin = "\<lparr>params = 5001, patience = 5000, best_validation_loss = FInf,
               test_score = FVal 0, done_looping = True\<rparr> :: (int, pyfloat) train_state"
  have go: "5000 < n_epochs ?c \<and> \<not> done_looping ?s"
    by (simp add: env_of_def toy_inputs_def inputs.extend_def)
  have last: "minibatch_loop ?c (5000 + 1) (xrange (n_train_batches ?c)) ?s = Inr ?fin"
    using nan_run_last_epoch by (simp add: env_of_def inputs.extend_def)
  have "epoch_loop ?c 5000 ?s = epoch_loop ?c (5000 + 1) ?fin"
    using go last by (rule epoch_loop_continue)
  also have "\<dots> = Inr (5000 + 1, ?fin)" by (simp add: epoch_loop_exit)
  finally show ?case by simp
next
  case (Suc k)
  let ?c = "env_of (toy_inputs 10000 1 0 0 1 6000) 1 0 0"
  let ?e = "5000 - int (Suc k)"
  let ?s = "\<lparr>params = ?e, patience = 5000, best_validation_loss = FInf,
             test_score = FVal 0, done_looping = False\<rparr> :: (int, pyfloat) train_state"
  let ?s1 = "\<lparr>params = ?e + 1, patience = 5000, best_validation_loss = FInf,
              test_score = FVal 0, done_looping = False\<rparr> :: (int, pyfloat) train_state"
  from Suc.prems have e: "0 \<le> ?e" "?e < 5000" by simp_all
  have go: "?e < n_epochs ?c \<and> \<not> done_looping ?s"
    using e by (simp add: env_of_def toy_inputs_def inputs.extend_def)
  have ep: "minibatch_loop ?c (?e + 1) (xrange (n_train_batches ?c)) ?s = Inr ?s1"
    using nan_run_epoch [OF e] by (simp add: env_of_def inputs.extend_def)
  have "epoch_loop ?c ?e ?s = epoch_loop ?c (?e + 1) ?s1"
    using go ep by (rule epoch_loop_continue)
  moreover have "?e + 1 = 5000 - int k" by simp
  ultimately show ?case using Suc.IH Suc.prems by simp
qed

lemma nan_run:
  "sgd_optimization_mnist (toy_inputs 10000 1 0 0 1 6000)
     = Inr (5001, \<lparr>params = 5001, patience = 5000, best_validation_loss = FInf,
                   test_score = FVal 0, done_looping = True\<rparr>)"
  using nan_run_from [of 5000]
  by (simp add: sgd_optimization_mnist_def n_batches_def initial_state_def env_of_def
      patience0_def toy_inputs_def exact_floats_def)

lemma steady_run_first_epoch:
  "minibatch_loop (env_of (toy_inputs 10000 2 1 1 1 3000) 2 1 1) 1 (xrange 2)
           \<lparr>params = 0, patience = 5000, best_validation_loss = FInf, test_score = FVal 0,
            done_looping = False\<rparr>
         = Inr \<lparr>params = 2, patience = 5000, best_validation_loss = FVal 1,
                test_score = FVal 1, done_looping = False\<rparr>"
  by (simp add: toy_eval upto_rec1)

lemma steady_run_epoch:
  assumes "1 \<le> e" and "e < 2500"
  shows "minibatch_loop (env_of (toy_inputs 10000 2 1 1 1 3000) 2 1 1) (e + 1) (xrange 2)
           \<lparr>params = 2 * e, patience = 5000, best_validation_loss = FVal 1,
            test_score = FVal 1, done_looping = False\<rparr>
         = Inr \<lparr>params = 2 * (e + 1), patience = 5000, best_validation_loss = FVal 1,
                test_score = FVal 1, done_looping = False\<rparr>"
  using assms by (simp add: toy_eval upto_rec1)

lemma steady_run_last_epoch:
  "minibatch_loop (env_of (toy_inputs 10000 2 1 1 1 3000) 2 1 1) 2501 (xrange 2)
           \<lparr>params = 5000, patience = 5000, best_validation_loss = FVal 1,
            test_score = FVal 1, done_looping = False\<rparr>
         = Inr \<lparr>params = 5001, patience = 5000, best_validation_loss = FVal 1,
                test_score = FVal 1, done_looping = True\<rparr>"
  by (simp add: toy_eval upto_rec1)


lemma steady_run_from:
  "k < 2500 \<Longrightarrow>
     epoch_loop (env_of (toy_inputs 10000 2 1 1 1 3000) 2 1 1) (2500 - int k)
       \<lparr>params = 2 * (2500 - int k), patience = 5000, best_validation_loss = FVal 1,
        test_score = FVal 1, done_looping = False\<rparr>
     = Inr (2501, \<lparr>params = 5001, patience = 5000, best_validation_loss = FVal 1,
                   test_score = FVal 1, done_looping = True\<rparr>)"
proof (induction k)
  case 0
  let ?c = "env_of (toy_inputs 10000 2 1 1 1 3000) 2 1 1"
  let ?s = "\<lparr>params = 5000, patience = 5000, best_validation_loss = FVal 1,
             test_score = FVal 1, done_looping = False\<rparr> :: (int, pyfloat) train_state"
  let ?fin = "\<lparr>params = 5001, patience = 5000, best_validation_loss = FVal 1,
               test_score = FVal 1, done_looping = True\<rparr> :: (int, pyfloat) train_state"
  have go: "2500 < n_epochs ?c \<and> \<not> done_looping ?s"
    by (simp add: env_of_def toy_inputs_def inputs.extend_def)
  have last: "minibatch_loop ?c (2500 + 1) (xrange (n_train_batches ?c)) ?s = Inr ?fin"
    using steady_run_last_epoch by (simp add: env_of_def inputs.extend_def)
  have "epoch_loop ?c 2500 ?s = epoch_loop ?c (2500 + 1) ?fin"
    using go last by (rule epoch_loop_continue)
  also have "\<dots> = Inr (2500 + 1, ?fin)" by (simp add: epoch_loop_exit)
  finally show ?case by simp
next
  case (Suc k)
  let ?c = "env_of (toy_inputs 10000 2 1 1 1 3000) 2 1 1"
  let ?e = "2500 - int (Suc k)"
  let ?s = "\<lparr>params = 2 * ?e, patience = 5000, best_validation_loss = FVal 1,
             test_score = FVal 1, done_looping = False\<rparr> :: (int, pyfloat) train_state"
  let ?s1 = "\<lparr>params = 2 * (?e + 1), patience = 5000, best_validation_loss = FVal 1,
              test_score = FVal 1, done_looping = False\<rparr> :: (int, pyfloat) train_state"
  from Suc.prems have e: "1 \<le> ?e" "?e < 2500" by simp_all
  have go: "?e < n_epochs ?c \<and> \<not> done_looping ?s"
    using e by (simp add: env_of_def toy_inputs_def inputs.extend_def)
  have ep: "minibatch_loop ?c (?e + 1) (xrange (n_train_batches ?c)) ?s = Inr ?s1"
    using steady_run_epoch [OF e] by (simp add: env_of_def inputs.extend_def)
  have "epoch_loop ?c ?e ?s = epoch_loop ?c (?e + 1) ?s1"
    using go ep by (rule epoch_loop_continue)
  moreover have "?e + 1 = 2500 - int k" by simp
  ultimately show ?case using Suc.IH Suc.prems by simp
qed

lemma steady_run:
  "sgd_optimization_mnist (toy_inputs 10000 2 1 1 1 3000)
     = Inr (2501, \<lparr>params = 5001, patience = 5000, best_validation_loss = FVal 1,
                   test_score = FVal 1, done_looping = True\<rparr>)"
proof -
  let ?c = "env_of (toy_inputs 10000 2 1 1 1 3000) 2 1 1"
  let ?s0 = "\<lparr>params = 0, patience = 5000, best_validation_loss = FInf,
              test_score = FVal 0, done_looping = False\<rparr> :: (int, pyfloat) train_state"
  let ?s1 = "\<lparr>params = 2, patience = 5000, best_validation_loss = FVal 1,
              test_score = FVal 1, done_looping = False\<rparr> :: (int, pyfloat) train_state"
  have go: "0 < n_epochs ?c \<and> \<not> done_looping ?s0"
    by (simp add: env_of_def toy_inputs_def inputs.extend_def)
  have first: "minibatch_loop ?c (0 + 1) (xrange (n_train_batches ?c)) ?s0 = Inr ?s1"
    using steady_run_first_epoch by (simp add: env_of_def inputs.extend_def)
  have "epoch_loop ?c 0 ?s0 = epoch_loop ?c (0 + 1) ?s1"
    using go first by (rule epoch_loop_continue)
  also have "\<dots> = Inr (2501, \<lparr>params = 5001, patience = 5000, best_validation_loss = FVal 1,
                   test_score = FVal 1, done_looping = True\<rparr>)"
    using steady_run_from [of 2499] by simp
  finally show ?thesis
    by (simp add: sgd_optimization_mnist_def n_batches_def initial_state_def env_of_def
        patience0_def toy_inputs_def exact_floats_def)
qed

text \<open>
  A pass through the loop body that makes no new best validation loss leaves the patience
  as it was.
\<close>

lemma step_without_new_best:
  assumes "minibatch_step c epoch i s = Inr s'"
    and "\<not> (validation_event c epoch i
            \<and> float_lt (floats c) (this_validation_loss c (params s'))
                 (best_validation_loss s))"
  shows "patience s' = patience s"
  using step_fields [OF assms(1)] assms(2) by auto

text \<open>
  Neither does a pass whose zero-based count is at most 2500, new best or not: the first
  validation event of a run, which records the first loss as the best, is such a pass.
\<close>

lemma step_before_half_patience:
  assumes "minibatch_step c epoch i s = Inr s'"
    and "iter_of c epoch i \<le> 2500" and "patience0 \<le> patience s"
  shows "patience s' = patience s"
proof -
  have "iter_of c epoch i * patience_increase \<le> patience s"
    using assms(2,3) by (simp add: patience_increase_def patience0_def)
  with step_fields [OF assms(1)] show ?thesis by auto
qed

text \<open>
  Claim C3, as the code has it. The patience changes only in a pass that makes a new best
  validation loss, and never decreases. When no validation event of a run extends it, as
  when none attains a new best validation loss, it ends with its initial value 5000 and
  the loop stops at the first minibatch whose zero-based count reaches it: with at least
  one training minibatch per epoch the run makes
  \<open>min max_epochs (5000 div n_train_batches + 1)\<close> epochs, which is \<open>max_epochs\<close> only when
  \<open>max_epochs\<close> is at most \<open>5000 div n_train_batches + 1\<close>; with no training minibatch it
  makes \<open>max_epochs\<close> epochs. (\<open>max_epochs\<close>, here \<open>n_epochs\<close>, is taken not to be
  negative.)
\<close>

theorem epochs_run_without_new_best:
  assumes "sgd_optimization_mnist inp = Inr (epochs_run, final)"
    and "patience final = patience0"
    and "0 \<le> n_epochs inp"
  shows "epochs_run =
           (if 1 \<le> int (length (train_set inp)) div batch_size inp
            then min (n_epochs inp)
                     (patience0 div (int (length (train_set inp)) div batch_size inp) + 1)
            else n_epochs inp)
       \<and> (minibatch_step c epoch i s = Inr s1
            \<and> \<not> (validation_event c epoch i
                   \<and> float_lt (floats c) (this_validation_loss c (params s1))
                        (best_validation_loss s))
          \<longrightarrow> patience s1 = patience s)"
proof -
  from sgd_run_loop [OF assms(1)] obtain n_train n_valid n_test where
    nb: "n_batches (train_set inp) (batch_size inp) = Inr n_train" and
    run: "epoch_loop (env_of inp n_train n_valid n_test) 0 (initial_state inp)
            = Inr (epochs_run, final)"
    by blast
  let ?c = "env_of inp n_train n_valid n_test"
  have n: "n_train = int (length (train_set inp)) div batch_size inp"
    using nb by (simp add: n_batches_def split: if_splits)
  have c: "n_train_batches ?c = n_train" "n_epochs ?c = n_epochs inp"
    by (simp_all add: env_of_def inputs.extend_def)
  have init: "\<not> done_looping (initial_state inp)" "patience (initial_state inp) = patience0"
    by (simp_all add: initial_state_def)
  have pat: "patience final = patience (initial_state inp)"
    using assms(2) init(2) by simp
  have epochs: "epochs_run = (if 1 \<le> n_train
                  then min (n_epochs inp) (patience0 div n_train + 1) else n_epochs inp)"
  proof (cases "1 \<le> n_train")
    case True
    have "epochs_run = min (n_epochs ?c) (patience (initial_state inp) div n_train_batches ?c + 1)"
      using run pat init(1)
    proof (rule epochs_when_patience_unchanged)
      show "0 \<le> n_epochs ?c" using assms(3) c by simp
      show "1 \<le> n_train_batches ?c" using True c by simp
      show "0 * n_train_batches ?c \<le> patience (initial_state inp)"
        using init(2) by (simp add: patience0_def)
    qed
    with True c init(2) show ?thesis by simp
  next
    case False
    have "epochs_run = n_epochs ?c \<and> final = initial_state inp"
      using run init(1)
    proof (rule epochs_without_minibatches)
      show "0 \<le> n_epochs ?c" using assms(3) c by simp
      show "n_train_batches ?c \<le> 0" using False c by simp
    qed
    with False c show ?thesis by simp
  qed
  have step: "minibatch_step c epoch i s = Inr s1
            \<and> \<not> (validation_event c epoch i
                   \<and> float_lt (floats c) (this_validation_loss c (params s1))
                        (best_validation_loss s))
          \<longrightarrow> patience s1 = patience s"
    using step_without_new_best [of c epoch i s s1] by blast
  from epochs n step show ?thesis by simp
qed

theorem epochs_run_without_new_best_witness:
  "sgd_optimization_mnist (toy_inputs 10000 2 1 1 1 3000)
     = Inr (2501, \<lparr>params = 5001, patience = 5000, best_validation_loss = FVal 1,
                   test_score = FVal 1, done_looping = True\<rparr>)
   \<and> (5000 :: int) = patience0
   \<and> (0 :: int) \<le> 3000
   \<and> (2501 :: int) = min 3000 (patience0 div 2 + 1)"
proof -
  let ?inp = "toy_inputs 10000 2 1 1 1 3000"
  let ?fin = "\<lparr>params = 5001, patience = 5000, best_validation_loss = FVal 1,
               test_score = FVal 1, done_looping = True\<rparr> :: (int, pyfloat) train_state"
  have run: "sgd_optimization_mnist ?inp = Inr (2501, ?fin)" by (rule steady_run)
  have pat: "patience ?fin = patience0" by (simp add: patience0_def)
  have ne: "0 \<le> n_epochs ?inp" by (simp add: toy_inputs_def)
  from epochs_run_without_new_best [OF run pat ne, THEN conjunct1]
  have epochs: "(2501 :: int) = min 3000 (patience0 div 2 + 1)" by (simp add: toy_inputs_def)
  have p0: "(5000 :: int) = patience0" by (simp add: patience0_def)
  have "(0 :: int) \<le> 3000" by simp
  with run p0 epochs show ?thesis by blast
qed

text \<open>The validation loss of the steady run is 1 under all the parameters it visits.\<close>

lemma steady_run_validation_loss:
  "p < 10000 \<Longrightarrow>
     this_validation_loss (env_of (toy_inputs 10000 2 1 1 1 3000) 2 1 1) p = FVal 1"
  by (simp add: this_validation_loss_def toy_eval)

text \<open>
  The claim C3 as stated fails, in a run with validation losses and in a run without.
  With two training minibatches per epoch, a validation loss that is 1 at every validation
  event, from the first, after 2 updates, to the last, after 5000 (the first event records
  it, and no later one improves on it) and \<open>max_epochs = 3000\<close>, the run stops after 2501
  epochs, at the minibatch whose zero-based count is the initial patience 5000. With one
  training minibatch per epoch, no validation minibatch (the validation split is smaller
  than the batch size, so the mean of line 343 is not a number and no event at all attains
  a new best) and \<open>max_epochs = 6000\<close>, the run stops after 5001 epochs.
\<close>

theorem epochs_run_without_new_best_counterexample:
  "sgd_optimization_mnist (toy_inputs 10000 2 1 1 1 3000)
     = Inr (2501, \<lparr>params = 5001, patience = 5000, best_validation_loss = FVal 1,
                   test_score = FVal 1, done_looping = True\<rparr>)
   \<and> n_epochs (toy_inputs 10000 2 1 1 1 3000) = 3000
   \<and> this_validation_loss (env_of (toy_inputs 10000 2 1 1 1 3000) 2 1 1) 2 = FVal 1
   \<and> this_validation_loss (env_of (toy_inputs 10000 2 1 1 1 3000) 2 1 1) 5000 = FVal 1
   \<and> sgd_optimization_mnist (toy_inputs 10000 1 0 0 1 6000)
     = Inr (5001, \<lparr>params = 5001, patience = 5000, best_validation_loss = FInf,
                   test_score = FVal 0, done_looping = True\<rparr>)
   \<and> n_epochs (toy_inputs 10000 1 0 0 1 6000) = 6000
   \<and> n_batches (valid_set (toy_inputs 10000 1 0 0 1 6000)) 1 = Inr 0"
proof -
  have first: "this_validation_loss (env_of (toy_inputs 10000 2 1 1 1 3000) 2 1 1) 2 = FVal 1"
    by (rule steady_run_validation_loss) simp
  have last: "this_validation_loss (env_of (toy_inputs 10000 2 1 1 1 3000) 2 1 1) 5000 = FVal 1"
    by (rule steady_run_validation_loss) simp
  have ne: "n_epochs (toy_inputs 10000 2 1 1 1 3000) = 3000"
    "n_epochs (toy_inputs 10000 1 0 0 1 6000) = 6000"
    by (simp_all add: toy_inputs_def)
  have nv: "n_batches (valid_set (toy_inputs 10000 1 0 0 1 6000)) 1 = Inr 0"
    by (simp add: toy_inputs_def n_batches_def)
  from steady_run nan_run first last ne nv show ?thesis by blast
qed

section \<open>A run that stops between two validation checks\<close>

text \<open>
  The claim C1 as stated fails: the loop can stop between two validation checks. With two
  training minibatches per epoch the validation events fall on the even one-based counts.
  The toy classifier never improves after the first event, the patience stays 5000, and
  the run stops in epoch 2501 at the minibatch 0, whose one-based count 5001 is odd:
  5001 updates have been made, and the pass that stops is not a validation event.
\<close>

theorem stop_between_validation_checks_counterexample:
  "sgd_optimization_mnist (toy_inputs 10000 2 1 1 1 3000)
     = Inr (2501, \<lparr>params = 5001, patience = 5000, best_validation_loss = FVal 1,
                   test_score = FVal 1, done_looping = True\<rparr>)
   \<and> validation_frequency 2 = 2
   \<and> (5001 :: int) mod 2 \<noteq> 0
   \<and> \<not> validation_event (env_of (toy_inputs 10000 2 1 1 1 3000) 2 1 1) 2501 0
   \<and> iter_of (env_of (toy_inputs 10000 2 1 1 1 3000) 2 1 1) 2501 0 + 1 = 5001"
  using steady_run
  by (simp add: validation_event_def iter_of_def validation_frequency_def patience0_def
      env_of_def inputs.extend_def)

section \<open>A run that extends the patience once\<close>

lemma learning_run_first_epoch:
  "minibatch_loop (env_of (toy_inputs 2573 1 1 1 1 6000) 1 1 1) 1 (xrange 1)
       \<lparr>params = 0, patience = 5000, best_validation_loss = FInf, test_score = FVal 0,
        done_looping = False\<rparr>
     = Inr \<lparr>params = 1, patience = 5000, best_validation_loss = FVal 1,
            test_score = FVal 1, done_looping = False\<rparr>"
  by (simp add: xrange_1 toy_eval)

lemma learning_run_epoch_before:
  assumes "1 \<le> e" and "e < 2572"
  shows "minibatch_loop (env_of (toy_inputs 2573 1 1 1 1 6000) 1 1 1) (e + 1) (xrange 1)
       \<lparr>params = e, patience = 5000, best_validation_loss = FVal 1, test_score = FVal 1,
        done_looping = False\<rparr>
     = Inr \<lparr>params = e + 1, patience = 5000, best_validation_loss = FVal 1,
            test_score = FVal 1, done_looping = False\<rparr>"
  using assms by (simp add: xrange_1 toy_eval)

lemma learning_run_epoch_of_improvement:
  "minibatch_loop (env_of (toy_inputs 2573 1 1 1 1 6000) 1 1 1) 2573 (xrange 1)
       \<lparr>params = 2572, patience = 5000, best_validation_loss = FVal 1, test_score = FVal 1,
        done_looping = False\<rparr>
     = Inr \<lparr>params = 2573, patience = 5144, best_validation_loss = FVal 0,
            test_score = FVal 0, done_looping = False\<rparr>"
  by (simp add: xrange_1 toy_eval)

lemma learning_run_epoch_after:
  assumes "2573 \<le> e" and "e < 5144"
  shows "minibatch_loop (env_of (toy_inputs 2573 1 1 1 1 6000) 1 1 1) (e + 1) (xrange 1)
       \<lparr>params = e, patience = 5144, best_validation_loss = FVal 0, test_score = FVal 0,
        done_looping = False\<rparr>
     = Inr \<lparr>params = e + 1, patience = 5144, best_validation_loss = FVal 0,
            test_score = FVal 0, done_looping = False\<rparr>"
  using assms by (simp add: xrange_1 toy_eval)

lemma learning_run_last_epoch:
  "minibatch_loop (env_of (toy_inputs 2573 1 1 1 1 6000) 1 1 1) 5145 (xrange 1)
       \<lparr>params = 5144, patience = 5144, best_validation_loss = FVal 0, test_score = FVal 0,
        done_looping = False\<rparr>
     = Inr \<lparr>params = 5145, patience = 5144, best_validation_loss = FVal 0,
            test_score = FVal 0, done_looping = True\<rparr>"
  by (simp add: xrange_1 toy_eval)

lemma learning_run_after:
  "k \<le> 2571 \<Longrightarrow>
     epoch_loop (env_of (toy_inputs 2573 1 1 1 1 6000) 1 1 1) (5144 - int k)
       \<lparr>params = 5144 - int k, patience = 5144, best_validation_loss = FVal 0,
        test_score = FVal 0, done_looping = False\<rparr>
     = Inr (5145, \<lparr>params = 5145, patience = 5144, best_validation_loss = FVal 0,
                   test_score = FVal 0, done_looping = True\<rparr>)"
proof (induction k)
  case 0
  let ?c = "env_of (toy_inputs 2573 1 1 1 1 6000) 1 1 1"
  let ?s = "\<lparr>params = 5144, patience = 5144, best_validation_loss = FVal 0,
             test_score = FVal 0, done_looping = False\<rparr> :: (int, pyfloat) train_state"
  let ?fin = "\<lparr>params = 5145, patience = 5144, best_validation_loss = FVal 0,
               test_score = FVal 0, done_looping = True\<rparr> :: (int, pyfloat) train_state"
  have go: "5144 < n_epochs ?c \<and> \<not> done_looping ?s"
    by (simp add: env_of_def toy_inputs_def inputs.extend_def)
  have last: "minibatch_loop ?c (5144 + 1) (xrange (n_train_batches ?c)) ?s = Inr ?fin"
    using learning_run_last_epoch by (simp add: env_of_def inputs.extend_def)
  have "epoch_loop ?c 5144 ?s = epoch_loop ?c (5144 + 1) ?fin"
    using go last by (rule epoch_loop_continue)
  also have "\<dots> = Inr (5144 + 1, ?fin)" by (simp add: epoch_loop_exit)
  finally show ?case by simp
next
  case (Suc k)
  let ?c = "env_of (toy_inputs 2573 1 1 1 1 6000) 1 1 1"
  let ?e = "5144 - int (Suc k)"
  let ?s = "\<lparr>params = ?e, patience = 5144, best_validation_loss = FVal 0,
             test_score = FVal 0, done_looping = False\<rparr> :: (int, pyfloat) train_state"
  let ?s1 = "\<lparr>params = ?e + 1, patience = 5144, best_validation_loss = FVal 0,
              test_score = FVal 0, done_looping = False\<rparr> :: (int, pyfloat) train_state"
  from Suc.prems have e: "2573 \<le> ?e" "?e < 5144" by simp_all
  have go: "?e < n_epochs ?c \<and> \<not> done_looping ?s"
    using e by (simp add: env_of_def toy_inputs_def inputs.extend_def)
  have ep: "minibatch_loop ?c (?e + 1) (xrange (n_train_batches ?c)) ?s = Inr ?s1"
    using learning_run_epoch_after [OF e] by (simp add: env_of_def inputs.extend_def)
  have "epoch_loop ?c ?e ?s = epoch_loop ?c (?e + 1) ?s1"
    using go ep by (rule epoch_loop_continue)
  moreover have "?e + 1 = 5144 - int k" by simp
  ultimately show ?case using Suc.IH Suc.prems by simp
qed

lemma learning_run_before:
  "k \<le> 2571 \<Longrightarrow>
     epoch_loop (env_of (toy_inputs 2573 1 1 1 1 6000) 1 1 1) (2572 - int k)
       \<lparr>params = 2572 - int k, patience = 5000, best_validation_loss = FVal 1,
        test_score = FVal 1, done_looping = False\<rparr>
     = Inr (5145, \<lparr>params = 5145, patience = 5144, best_validation_loss = FVal 0,
                   test_score = FVal 0, done_looping = True\<rparr>)"
proof (induction k)
  case 0
  let ?c = "env_of (toy_inputs 2573 1 1 1 1 6000) 1 1 1"
  let ?s = "\<lparr>params = 2572, patience = 5000, best_validation_loss = FVal 1,
             test_score = FVal 1, done_looping = False\<rparr> :: (int, pyfloat) train_state"
  let ?s1 = "\<lparr>params = 2573, patience = 5144, best_validation_loss = FVal 0,
              test_score = FVal 0, done_looping = False\<rparr> :: (int, pyfloat) train_state"
  have go: "2572 < n_epochs ?c \<and> \<not> done_looping ?s"
    by (simp add: env_of_def toy_inputs_def inputs.extend_def)
  have imp: "minibatch_loop ?c (2572 + 1) (xrange (n_train_batches ?c)) ?s = Inr ?s1"
    using learning_run_epoch_of_improvement by (simp add: env_of_def inputs.extend_def)
  have "epoch_loop ?c 2572 ?s = epoch_loop ?c (2572 + 1) ?s1"
    using go imp by (rule epoch_loop_continue)
  then show ?case using learning_run_after [of 2571] by simp
next
  case (Suc k)
  let ?c = "env_of (toy_inputs 2573 1 1 1 1 6000) 1 1 1"
  let ?e = "2572 - int (Suc k)"
  let ?s = "\<lparr>params = ?e, patience = 5000, best_validation_loss = FVal 1,
             test_score = FVal 1, done_looping = False\<rparr> :: (int, pyfloat) train_state"
  let ?s1 = "\<lparr>params = ?e + 1, patience = 5000, best_validation_loss = FVal 1,
              test_score = FVal 1, done_looping = False\<rparr> :: (int, pyfloat) train_state"
  from Suc.prems have e: "1 \<le> ?e" "?e < 2572" by simp_all
  have go: "?e < n_epochs ?c \<and> \<not> done_looping ?s"
    using e by (simp add: env_of_def toy_inputs_def inputs.extend_def)
  have ep: "minibatch_loop ?c (?e + 1) (xrange (n_train_batches ?c)) ?s = Inr ?s1"
    using learning_run_epoch_before [OF e] by (simp add: env_of_def inputs.extend_def)
  have "epoch_loop ?c ?e ?s = epoch_loop ?c (?e + 1) ?s1"
    using go ep by (rule epoch_loop_continue)
  moreover have "?e + 1 = 2572 - int k" by simp
  ultimately show ?case using Suc.IH Suc.prems by simp
qed

lemma learning_run:
  "sgd_optimization_mnist (toy_inputs 2573 1 1 1 1 6000)
     = Inr (5145, \<lparr>params = 5145, patience = 5144, best_validation_loss = FVal 0,
                   test_score = FVal 0, done_looping = True\<rparr>)"
proof -
  let ?c = "env_of (toy_inputs 2573 1 1 1 1 6000) 1 1 1"
  let ?s0 = "\<lparr>params = 0, patience = 5000, best_validation_loss = FInf,
              test_score = FVal 0, done_looping = False\<rparr> :: (int, pyfloat) train_state"
  let ?s1 = "\<lparr>params = 1, patience = 5000, best_validation_loss = FVal 1,
              test_score = FVal 1, done_looping = False\<rparr> :: (int, pyfloat) train_state"
  have go: "0 < n_epochs ?c \<and> \<not> done_looping ?s0"
    by (simp add: env_of_def toy_inputs_def inputs.extend_def)
  have first: "minibatch_loop ?c (0 + 1) (xrange (n_train_batches ?c)) ?s0 = Inr ?s1"
    using learning_run_first_epoch by (simp add: env_of_def inputs.extend_def)
  have "epoch_loop ?c 0 ?s0 = epoch_loop ?c (0 + 1) ?s1"
    using go first by (rule epoch_loop_continue)
  also have "\<dots> = Inr (5145, \<lparr>params = 5145, patience = 5144, best_validation_loss = FVal 0,
                   test_score = FVal 0, done_looping = True\<rparr>)"
    using learning_run_before [of 2571] by simp
  finally show ?thesis
    by (simp add: sgd_optimization_mnist_def n_batches_def initial_state_def env_of_def
        patience0_def toy_inputs_def exact_floats_def)
qed

text \<open>
  The claim C2 as stated fails. With one training minibatch per epoch every minibatch is
  a validation event. The toy classifier is wrong on the validation rows until its 2573rd
  update and right from then on, so the run extends the patience once, at the validation
  event whose one-based count is 2573 and whose \<open>iter\<close> is 2572: the patience becomes
  \<open>max 5000 (2572 * 2) = 5144\<close>, and the run stops when \<open>iter\<close> reaches it, after 5145
  minibatches. With the one-based count the patience would have become 5146.
\<close>

theorem patience_extension_from_zero_based_iter_counterexample:
  "sgd_optimization_mnist (toy_inputs 2573 1 1 1 1 6000)
     = Inr (5145, \<lparr>params = 5145, patience = 5144, best_validation_loss = FVal 0,
                   test_score = FVal 0, done_looping = True\<rparr>)
   \<and> minibatch_step (env_of (toy_inputs 2573 1 1 1 1 6000) 1 1 1) 2573 0
        \<lparr>params = 2572, patience = 5000, best_validation_loss = FVal 1, test_score = FVal 1,
         done_looping = False\<rparr>
     = Inr \<lparr>params = 2573, patience = 5144, best_validation_loss = FVal 0,
            test_score = FVal 0, done_looping = False\<rparr>
   \<and> validation_event (env_of (toy_inputs 2573 1 1 1 1 6000) 1 1 1) 2573 0
   \<and> this_validation_loss (env_of (toy_inputs 2573 1 1 1 1 6000) 1 1 1) 2573 = FVal 0
   \<and> exact_lt (FVal 0) (FVal 1)
   \<and> exact_lt (FVal 0) (exact_mul (FVal 1) (improvement_threshold exact_floats))
   \<and> iter_of (env_of (toy_inputs 2573 1 1 1 1 6000) 1 1 1) 2573 0 + 1 = 2573
   \<and> max 5000 (2573 * patience_increase) = 5146"
  using learning_run
  by (simp add: validation_event_def iter_of_def this_validation_loss_def toy_eval)

end
